theory Spec2Isabelle
  imports Complex_Main "HOL-Library.Sublist"
begin

section \<open>The file system, the console and the network\<close>

text \<open>
  The script \<^verbatim>\<open>create-android-ndk.py\<close> works on directories and plain files only. A path
  is the list of its components, so \<^verbatim>\<open>os.path.join(d, x)\<close> is \<open>d @ [x]\<close> for a single
  component \<open>x\<close> (every name that \<^verbatim>\<open>os.listdir\<close> returns is one; a string of the command
  line is joined with \<open>os_path_join\<close> below). The file system is an
  association list from paths to nodes, in the order in which \<^verbatim>\<open>os.listdir\<close> enumerates
  them. A path that is bound twice stands for a listing that shows a name twice (the
  duplicate-name fixture of the specification); a lookup sees the first binding.
  Symbolic links, permissions and the current directory of the process are not modelled.
\<close>

type_synonym path = "string list"

type_synonym content = string

datatype node = File content | Dir

type_synonym filesystem = "(path \<times> node) list"

text \<open>The exceptions that the modelled library calls raise.\<close>

datatype exn =
    FileNotFoundError
  | NotADirectoryError
  | IsADirectoryError
  | FileExistsError
  | AssertionError
  | CalledProcessError
  | ConnectionError
  | ReadError
  | OverflowError
  | DownloadingFailed string

text \<open>
  A message is kept as the format string of the source together with the arguments of
  \<^verbatim>\<open>format\<close>, not rendered: \<^verbatim>\<open>print('STL not exists: {}'.format(d))\<close> appends
  \<open>(''STL not exists: {}'', [APath d])\<close> to the console.
\<close>

datatype arg = APath path | AStr string | AStrs "string list" | ANum nat | AExn exn

datatype error = SysExit string "arg list" | Raised exn

text \<open>What one \<^verbatim>\<open>requests.get\<close> followed by the chunked copy to disk can do.\<close>

datatype response =
    NoConnection
  | NotOk
  | Body content
  | Broken content

record world =
  fs :: filesystem
  stdout :: "(string \<times> arg list) list"
  requests :: "string list"
  responses :: "response list"

text \<open>
  A run that stops keeps the world it stopped in: \<open>Inl (e, w)\<close> is an exit or an uncaught
  exception \<open>e\<close> in world \<open>w\<close>.
\<close>

type_synonym 'a result = "(error \<times> world) + 'a"

text \<open>What the script takes from its host and from the libraries it calls.\<close>

record env =
  cwd :: path
  platform_system :: string
  sha1_hexdigest :: "content \<Rightarrow> string"
  expand :: "string \<Rightarrow> content \<Rightarrow> filesystem option"
  make_tar :: "filesystem \<Rightarrow> content"

record args =
  arg_toolchain :: "string option"
  arg_stl :: "string option"
  arg_compiler_version :: "string option"
  arg_abi_name :: "string option"
  arg_api_level :: "string option"
  arg_arch_name :: "string option"
  arg_ndk_version :: "string option"

record file_to_download =
  self_url :: string
  self_sha1 :: string
  self_local_path :: path
  self_unpack_dir :: path

definition say :: "string \<Rightarrow> arg list \<Rightarrow> world \<Rightarrow> world" where
  "say fmt as w = w\<lparr>stdout := stdout w @ [(fmt, as)]\<rparr>"

definition sys_exit :: "string \<Rightarrow> arg list \<Rightarrow> world \<Rightarrow> 'a result" where
  "sys_exit fmt as w = Inl (SysExit fmt as, w)"

definition raise :: "exn \<Rightarrow> world \<Rightarrow> 'a result" where
  "raise e w = Inl (Raised e, w)"

subsection \<open>\<^verbatim>\<open>os\<close>, \<^verbatim>\<open>os.path\<close> and \<^verbatim>\<open>shutil\<close>\<close>

definition path_exists :: "filesystem \<Rightarrow> path \<Rightarrow> bool" where
  "path_exists f p = (map_of f p \<noteq> None)"

definition isdir :: "filesystem \<Rightarrow> path \<Rightarrow> bool" where
  "isdir f p = (map_of f p = Some Dir)"

definition names :: "filesystem \<Rightarrow> path \<Rightarrow> string list" where
  "names f d = map (last \<circ> fst) (filter (\<lambda>(p, n). p \<noteq> [] \<and> butlast p = d) f)"

definition listdir :: "filesystem \<Rightarrow> path \<Rightarrow> exn + string list" where
  "listdir f d =
     (case map_of f d of
        None \<Rightarrow> Inl FileNotFoundError
      | Some (File c) \<Rightarrow> Inl NotADirectoryError
      | Some Dir \<Rightarrow> Inr (names f d))"


text \<open>\<^verbatim>\<open>shutil.rmtree\<close> takes a directory away with everything below it.\<close>

definition rmtree :: "filesystem \<Rightarrow> path \<Rightarrow> exn + filesystem" where
  "rmtree f p =
     (case map_of f p of
        None \<Rightarrow> Inl FileNotFoundError
      | Some (File c) \<Rightarrow> Inl NotADirectoryError
      | Some Dir \<Rightarrow> Inr (filter (\<lambda>(q, n). \<not> prefix p q) f))"

definition remove :: "filesystem \<Rightarrow> path \<Rightarrow> exn + filesystem" where
  "remove f p =
     (case map_of f p of
        None \<Rightarrow> Inl FileNotFoundError
      | Some Dir \<Rightarrow> Inl IsADirectoryError
      | Some (File c) \<Rightarrow> Inr (filter (\<lambda>(q, n). q \<noteq> p) f))"

text \<open>\<^verbatim>\<open>open(p, 'rb').read()\<close>, and \<^verbatim>\<open>open(p, 'wb')\<close> followed by the writes.\<close>

definition read_file :: "filesystem \<Rightarrow> path \<Rightarrow> exn + content" where
  "read_file f p =
     (case map_of f p of
        None \<Rightarrow> Inl FileNotFoundError
      | Some Dir \<Rightarrow> Inl IsADirectoryError
      | Some (File c) \<Rightarrow> Inr c)"

definition write_file :: "filesystem \<Rightarrow> path \<Rightarrow> content \<Rightarrow> exn + filesystem" where
  "write_file f p c =
     (case map_of f p of
        Some Dir \<Rightarrow> Inl IsADirectoryError
      | Some (File c0) \<Rightarrow> Inr (map (\<lambda>(q, n). if q = p then (q, File c) else (q, n)) f)
      | None \<Rightarrow>
          (case map_of f (butlast p) of
             None \<Rightarrow> Inl FileNotFoundError
           | Some (File c0) \<Rightarrow> Inl NotADirectoryError
           | Some Dir \<Rightarrow> Inr (f @ [(p, File c)])))"

text \<open>A call that changes the file system, made in a world: an exception is not caught.\<close>

definition os_call :: "exn + filesystem \<Rightarrow> world \<Rightarrow> world result" where
  "os_call r w = (case r of Inl x \<Rightarrow> raise x w | Inr f \<Rightarrow> Inr (w\<lparr>fs := f\<rparr>))"

definition os_listdir :: "path \<Rightarrow> world \<Rightarrow> string list result" where
  "os_listdir d w = (case listdir (fs w) d of Inl x \<Rightarrow> raise x w | Inr xs \<Rightarrow> Inr xs)"

text \<open>
  A string given on the command line need not be one component. \<^verbatim>\<open>os.path.join(d, s)\<close>
  puts \<open>s\<close> below \<open>d\<close>, or takes \<open>s\<close> alone when it starts with a slash; the components of
  \<open>s\<close> are kept as they are written (empty, \<^verbatim>\<open>.\<close> and \<^verbatim>\<open>..\<close> too), so that the path prints
  as the source prints it.
\<close>

fun split_slash :: "string \<Rightarrow> string list" where
  "split_slash [] = [[]]"
| "split_slash (c # cs) =
     (if c = CHR ''/'' then [] # split_slash cs
      else case split_slash cs of [] \<Rightarrow> [[c]] | x # xs \<Rightarrow> (c # x) # xs)"

definition os_path_join :: "path \<Rightarrow> string \<Rightarrow> path" where
  "os_path_join d s = (if prefix ''/'' s then tl (split_slash s) else d @ split_slash s)"

text \<open>
  \<^verbatim>\<open>os.path.exists\<close> on such a path: the system walks it from the root, component by
  component. Every step starts in a directory (the root is one); an empty component and
  \<^verbatim>\<open>.\<close> stay there, \<^verbatim>\<open>..\<close> goes up, a name goes down. The path exists when the walk ends at
  an entry.
\<close>

definition is_directory :: "filesystem \<Rightarrow> path \<Rightarrow> bool" where
  "is_directory f p = (p = [] \<or> isdir f p)"

fun resolve :: "filesystem \<Rightarrow> path \<Rightarrow> string list \<Rightarrow> path option" where
  "resolve f cur [] = Some cur"
| "resolve f cur (c # cs) =
     (if \<not> is_directory f cur then None
      else if c = [] \<or> c = ''.'' then resolve f cur cs
      else if c = ''..'' then resolve f (butlast cur) cs
      else resolve f (cur @ [c]) cs)"

definition os_path_exists :: "filesystem \<Rightarrow> path \<Rightarrow> bool" where
  "os_path_exists f p =
     (case resolve f [] p of None \<Rightarrow> False | Some q \<Rightarrow> q = [] \<or> path_exists f q)"

section \<open>Size reporting\<close>




text \<open>
  \<^verbatim>\<open>size / kb\<close> is a float: a double has 53 bits of mantissa. \<open>dropped_bits n\<close> counts the low
  bits of \<open>n\<close> that do not fit, and \<open>nearest_double n\<close> is \<^verbatim>\<open>float(n)\<close> as a number: \<open>n\<close> rounded
  to 53 significant bits, a tie going to the even mantissa.
\<close>

fun dropped_bits :: "nat \<Rightarrow> nat" where
  "dropped_bits n = (if n < 2 ^ 53 then 0 else Suc (dropped_bits (n div 2)))"

declare dropped_bits.simps [simp del]

definition nearest_double :: "nat \<Rightarrow> nat" where
  "nearest_double n =
     (let s = dropped_bits n; q = n div 2 ^ s; r = n mod 2 ^ s in
      (if 2 * r < 2 ^ s then q else if 2 ^ s < 2 * r then q + 1 else if even q then q else q + 1) * 2 ^ s)"

text \<open>
  \<^verbatim>\<open>a / b\<close> for two ints is the double nearest to the quotient, and \<^verbatim>\<open>OverflowError\<close> when
  that is \<open>2 ^ 1024\<close> or more. The divisors of this script are \<open>2 ^ 10\<close>, \<open>2 ^ 20\<close> and
  \<open>2 ^ 30\<close>: dividing by a power of two does not change the mantissa, so the nearest double
  of the quotient is the nearest double of \<open>a\<close>, divided by \<open>b\<close>.
\<close>

definition true_div :: "nat \<Rightarrow> nat \<Rightarrow> exn + rat" where
  "true_div a b =
     (if 2 ^ 1024 * b \<le> nearest_double a then Inl OverflowError
      else Inr (of_nat (nearest_double a) / of_nat b))"

text \<open>
  Below \<^verbatim>\<open>kb\<close> the size is returned as the int it is; \<^verbatim>\<open>'{:.2f}'.format\<close> turns it into the
  float of the same value.
\<close>

definition human_readable_size :: "nat \<Rightarrow> exn + rat \<times> string" where
  "human_readable_size sz =
     (let kb = (1024 :: nat); mb = 1024 * kb; gb = 1024 * mb in
      if sz < kb then Inr (of_nat sz, ''B'')
      else if sz < mb then (case true_div sz kb of Inl x \<Rightarrow> Inl x | Inr v \<Rightarrow> Inr (v, ''KB''))
      else if sz < gb then (case true_div sz mb of Inl x \<Rightarrow> Inl x | Inr v \<Rightarrow> Inr (v, ''MB''))
      else (case true_div sz gb of Inl x \<Rightarrow> Inl x | Inr v \<Rightarrow> Inr (v, ''GB'')))"

definition digit_char :: "nat \<Rightarrow> char" where
  "digit_char d = ''0123456789'' ! d"

fun digits :: "nat \<Rightarrow> string" where
  "digits n = (if n < 10 then [digit_char n] else digits (n div 10) @ [digit_char (n mod 10)])"

declare digits.simps [simp del]

text \<open>
  \<^verbatim>\<open>'{:.2f}'.format(x)\<close> for \<open>x \<ge> 0\<close>: the nearest multiple of one hundredth, a tie going to
  the even one, printed with two decimals.
\<close>

definition hundredths :: "rat \<Rightarrow> nat" where
  "hundredths x =
     (let h = \<lfloor>x * 100\<rfloor>; r = x * 100 - of_int h in
      nat (if r < 1 / 2 then h else if 1 / 2 < r then h + 1 else if even h then h else h + 1))"

definition format_2f :: "rat \<Rightarrow> string" where
  "format_2f x =
     (let h = hundredths x in
      digits (h div 100) @ ''.'' @ [digit_char (h mod 100 div 10), digit_char (h mod 10)])"

definition printable_size :: "nat \<Rightarrow> exn + string" where
  "printable_size n =
     (case human_readable_size n of
        Inl x \<Rightarrow> Inl x
      | Inr (sz, sfx) \<Rightarrow> Inr (format_2f sz @ '' '' @ sfx))"


section \<open>The standard-library table\<close>

definition stl_suffix_by_name :: "string \<Rightarrow> world \<Rightarrow> string result" where
  "stl_suffix_by_name stl_name w =
     (if stl_name = ''system'' \<or> stl_name = ''system_re'' then Inr ''system''
      else if stl_name = ''gabi++_shared'' \<or> stl_name = ''gabi++_static'' then Inr ''gabi++''
      else if stl_name = ''stlport_shared'' \<or> stl_name = ''stlport_static'' then Inr ''stlport''
      else if stl_name = ''gnustl_shared'' \<or> stl_name = ''gnustl_static'' then Inr ''gnu-libstdc++''
      else if stl_name = ''c++_static'' \<or> stl_name = ''c++_shared'' then Inr ''llvm-libc++''
      else sys_exit ''Unexpected --stl: {}'' [AStr stl_name] w)"

definition stl_names :: "string list" where
  "stl_names =
     [''system'', ''system_re'', ''gabi++_shared'', ''gabi++_static'', ''stlport_shared'',
      ''stlport_static'', ''gnustl_shared'', ''gnustl_static'', ''c++_static'', ''c++_shared'']"

section \<open>Fetching and unpacking the archive\<close>

definition hash_match :: "env \<Rightarrow> file_to_download \<Rightarrow> world \<Rightarrow> (bool \<times> world) result" where
  "hash_match e self w =
     (if \<not> path_exists (fs w) (self_local_path self)
      then Inr (False, say ''File not exists: {}'' [APath (self_local_path self)] w)
      else
        let w1 = say ''Calculating hash of {}'' [APath (self_local_path self)] w in
        case read_file (fs w1) (self_local_path self) of
          Inl x \<Rightarrow> raise x w1
        | Inr c \<Rightarrow>
            let sha1_of_file = sha1_hexdigest e c;
                ok = (sha1_of_file = self_sha1 self)
            in if ok then Inr (True, w1)
               else Inr (False,
                      say ''  {} (expected)'' [AStr (self_sha1 self)]
                        (say ''  {} (real)'' [AStr sha1_of_file]
                          (say ''SHA1 mismatch for file {}:'' [APath (self_local_path self)] w1))))"

text \<open>
  One attempt. The request is logged and takes the next answer of the network; an answer
  that breaks off has written its chunks before the exception.
\<close>

definition real_file_download_once :: "file_to_download \<Rightarrow> world \<Rightarrow> (exn \<times> world) + world" where
  "real_file_download_once self w =
     (let w1 = say (''Downloading:'' @ [CHR 0x0A] @ ''  {}'' @ [CHR 0x0A] @ ''  -> {}'')
                 [AStr (self_url self), APath (self_local_path self)] w;
          r = (case responses w1 of [] \<Rightarrow> NoConnection | x # xs \<Rightarrow> x);
          w2 = w1\<lparr>requests := requests w1 @ [self_url self], responses := tl (responses w1)\<rparr>
      in case r of
           NoConnection \<Rightarrow> Inl (ConnectionError, w2)
         | NotOk \<Rightarrow> Inl (DownloadingFailed (self_url self), w2)
         | Body c \<Rightarrow>
             (case write_file (fs w2) (self_local_path self) c of
                Inl x \<Rightarrow> Inl (x, w2)
              | Inr f \<Rightarrow> Inr (w2\<lparr>fs := f\<rparr>))
         | Broken c \<Rightarrow>
             (case write_file (fs w2) (self_local_path self) c of
                Inl x \<Rightarrow> Inl (x, w2)
              | Inr f \<Rightarrow> Inl (ConnectionError, w2\<lparr>fs := f\<rparr>)))"

text \<open>
  The loop \<^verbatim>\<open>for i in range(max_retry)\<close>; the pause of \<^verbatim>\<open>time.sleep(60)\<close> leaves
  no trace in the world.
\<close>

fun retry_loop :: "file_to_download \<Rightarrow> nat \<Rightarrow> nat list \<Rightarrow> world \<Rightarrow> world result" where
  "retry_loop self max_retry [] w = sys_exit ''Download failed'' [] w"
| "retry_loop self max_retry (i # rest) w =
     (case real_file_download_once self w of
        Inr w1 \<Rightarrow> Inr (say ''Done'' [] w1)
      | Inl (exc, w1) \<Rightarrow>
          retry_loop self max_retry rest
            (say ''Exception catched ({}), retry... ({} of {})'' [AExn exc, ANum (i + 1), ANum max_retry] w1))"

definition real_file_download :: "file_to_download \<Rightarrow> world \<Rightarrow> world result" where
  "real_file_download self w = (let max_retry = 3 in retry_loop self max_retry [0..<max_retry] w)"

definition download :: "env \<Rightarrow> file_to_download \<Rightarrow> world \<Rightarrow> world result" where
  "download e self w =
     (case hash_match e self w of
        Inl x \<Rightarrow> Inl x
      | Inr (ok, w1) \<Rightarrow>
          if ok then Inr (say ''File already downloaded: {}'' [APath (self_local_path self)] w1)
          else
            (case real_file_download self w1 of
               Inl x \<Rightarrow> Inl x
             | Inr w2 \<Rightarrow>
                 (case hash_match e self w2 of
                    Inl x \<Rightarrow> Inl x
                  | Inr (ok2, w3) \<Rightarrow> if ok2 then Inr w3 else raise AssertionError w3)))"




section \<open>The command line and the working directories\<close>



text \<open>\<^verbatim>\<open>if not v\<close> passes for a string that is given and not empty.\<close>

definition truthy :: "string option \<Rightarrow> string option" where
  "truthy v = (case v of None \<Rightarrow> None | Some s \<Rightarrow> if s = [] then None else Some s)"

text \<open>What \<^verbatim>\<open>'{}'.format(v)\<close> prints for an optional string.\<close>

definition str :: "string option \<Rightarrow> string" where
  "str v = (case v of None \<Rightarrow> ''None'' | Some s \<Rightarrow> s)"


definition top_dir :: "env \<Rightarrow> path" where
  "top_dir e = cwd e"

definition downloads_dir :: "env \<Rightarrow> path" where
  "downloads_dir e = top_dir e @ [''_downloads'']"

definition unpack_dir :: "env \<Rightarrow> path" where
  "unpack_dir e = top_dir e @ [''_unpacked'']"

definition pruned_dir :: "env \<Rightarrow> path" where
  "pruned_dir e = top_dir e @ [''_pruned'']"


definition archive_suffix :: "args \<Rightarrow> string" where
  "archive_suffix a = (if arg_ndk_version a = Some ''r10e'' then ''bin'' else ''zip'')"

definition android_archive_local :: "env \<Rightarrow> args \<Rightarrow> path" where
  "android_archive_local e a =
     downloads_dir e @ [''android-ndk-'' @ str (arg_ndk_version a) @ ''.'' @ archive_suffix a]"

definition android_unpacked_ndk :: "env \<Rightarrow> args \<Rightarrow> path" where
  "android_unpacked_ndk e a = unpack_dir e @ [''android-ndk-'' @ str (arg_ndk_version a)]"

definition android_toolchains_dir :: "env \<Rightarrow> args \<Rightarrow> path" where
  "android_toolchains_dir e a = android_unpacked_ndk e a @ [''toolchains'']"

definition android_stl_dir :: "env \<Rightarrow> args \<Rightarrow> path" where
  "android_stl_dir e a = android_unpacked_ndk e a @ [''sources'', ''cxx-stl'']"

definition android_platforms_dir :: "env \<Rightarrow> args \<Rightarrow> path" where
  "android_platforms_dir e a = android_unpacked_ndk e a @ [''platforms'']"




section \<open>Selecting and pruning\<close>

text \<open>\<^verbatim>\<open>s.replace(old, new)\<close> for a pattern \<open>old\<close> that is not empty: left to right, no overlaps.\<close>

fun str_replace :: "string \<Rightarrow> string \<Rightarrow> string \<Rightarrow> string" where
  "str_replace old new [] = []"
| "str_replace old new (c # cs) =
     (if old \<noteq> [] \<and> prefix old (c # cs)
      then new @ str_replace old new (drop (length old) (c # cs))
      else c # str_replace old new cs)"

text \<open>Lines 255 to 257: the script's variable \<^verbatim>\<open>toolchain\<close>.\<close>

definition toolchain :: "string option \<Rightarrow> string \<Rightarrow> string" where
  "toolchain compiler_version t =
     (if compiler_version = Some ''clang'' then str_replace ''-clang'' ''-4.9'' t else t)"

text \<open>Lines 259 to 266.\<close>

definition select_toolchain ::
  "env \<Rightarrow> args \<Rightarrow> string \<Rightarrow> world \<Rightarrow> ((string \<times> string list) \<times> world) result" where
  "select_toolchain e a t w =
     (let tc = toolchain (arg_compiler_version a) t;
          toolchain_dir = os_path_join (android_toolchains_dir e a) tc;
          w1 = (if \<not> os_path_exists (fs w) toolchain_dir
                then say ''Toolchain not exists: {} (set by --toolchain)'' [APath toolchain_dir] w
                else w)
      in case os_listdir (android_toolchains_dir e a) w1 of
           Inl x \<Rightarrow> Inl x
         | Inr toolchains_list \<Rightarrow>
             if tc \<notin> set toolchains_list
             then sys_exit ''Toolchain `{}` is not in list: {}'' [AStr tc, AStrs toolchains_list] w1
             else Inr ((tc, toolchains_list), w1))"

text \<open>Lines 268 to 276.\<close>

definition select_stl ::
  "env \<Rightarrow> args \<Rightarrow> string \<Rightarrow> world \<Rightarrow> ((string \<times> string list) \<times> world) result" where
  "select_stl e a s w =
     (case stl_suffix_by_name s w of
        Inl x \<Rightarrow> Inl x
      | Inr stl_suffix \<Rightarrow>
          let stl_dir = os_path_join (android_stl_dir e a) stl_suffix;
              w1 = (if \<not> os_path_exists (fs w) stl_dir
                    then say ''STL not exists: {} (set by --stl)'' [APath stl_dir] w
                    else w)
          in case os_listdir (android_stl_dir e a) w1 of
               Inl x \<Rightarrow> Inl x
             | Inr stl_list \<Rightarrow>
                 if stl_suffix \<notin> set stl_list
                 then sys_exit ''STL `{}` is not in list: {}'' [AStr stl_suffix, AStrs stl_list] w1
                 else Inr ((stl_suffix, stl_list), w1))"

text \<open>Lines 278 to 298; the flag \<^verbatim>\<open>toolchain_found\<close> is the argument \<open>found\<close>.\<close>

fun toolchains_loop ::
  "string option \<Rightarrow> path \<Rightarrow> string \<Rightarrow> string list \<Rightarrow> bool \<Rightarrow> world \<Rightarrow> (bool \<times> world) result" where
  "toolchains_loop compiler_version dir tc [] found w = Inr (found, w)"
| "toolchains_loop compiler_version dir tc (x # xs) found w =
     (let set_toolchain_found = (x = tc);
          remove_dir = (if compiler_version = Some ''clang'' \<and> x = ''llvm'' then False
                        else \<not> set_toolchain_found)
      in case (if remove_dir
               then os_call (rmtree (fs w) (dir @ [x])) (say ''  - {}'' [APath (dir @ [x])] w)
               else Inr w) of
           Inl e \<Rightarrow> Inl e
         | Inr w1 \<Rightarrow>
             if set_toolchain_found then
               (if found then sys_exit ''Already found'' [] w1
                else toolchains_loop compiler_version dir tc xs True w1)
             else toolchains_loop compiler_version dir tc xs found w1)"

definition remove_unused_toolchains ::
  "string option \<Rightarrow> path \<Rightarrow> string \<Rightarrow> string list \<Rightarrow> world \<Rightarrow> world result" where
  "remove_unused_toolchains compiler_version dir tc toolchains_list w =
     (case toolchains_loop compiler_version dir tc toolchains_list False
             (say ''Removing unused toolchains:'' [] w) of
        Inl e \<Rightarrow> Inl e
      | Inr (found, w1) \<Rightarrow> if \<not> found then sys_exit ''Toolchain not found'' [] w1 else Inr w1)"

text \<open>Lines 302 to 322.\<close>

fun stl_loop :: "path \<Rightarrow> string \<Rightarrow> string list \<Rightarrow> bool \<Rightarrow> world \<Rightarrow> (bool \<times> world) result" where
  "stl_loop dir stl_suffix [] found w = Inr (found, w)"
| "stl_loop dir stl_suffix (x # xs) found w =
     (let set_stl_found = (x = stl_suffix);
          remove_dir = (if stl_suffix = ''llvm-libc++'' \<and> x = ''llvm-libc++abi'' then False
                        else \<not> set_stl_found)
      in case (if remove_dir
               then os_call (rmtree (fs w) (dir @ [x])) (say ''  - {}'' [APath (dir @ [x])] w)
               else Inr w) of
           Inl e \<Rightarrow> Inl e
         | Inr w1 \<Rightarrow>
             if set_stl_found then
               (if found then sys_exit ''Already found'' [] w1
                else stl_loop dir stl_suffix xs True w1)
             else stl_loop dir stl_suffix xs found w1)"

definition remove_unused_stl :: "path \<Rightarrow> string \<Rightarrow> string list \<Rightarrow> world \<Rightarrow> world result" where
  "remove_unused_stl dir stl_suffix stl_list w =
     (case stl_loop dir stl_suffix stl_list False (say ''Removing unused STL:'' [] w) of
        Inl e \<Rightarrow> Inl e
      | Inr (found, w1) \<Rightarrow> if \<not> found then sys_exit ''STL not found'' [] w1 else Inr w1)"

text \<open>Lines 336 to 351.\<close>

fun versions_loop :: "path \<Rightarrow> string \<Rightarrow> string list \<Rightarrow> bool \<Rightarrow> world \<Rightarrow> (bool \<times> world) result" where
  "versions_loop stl_dir gcc_version [] found w = Inr (found, w)"
| "versions_loop stl_dir gcc_version (x # xs) found w =
     (let x_path = stl_dir @ [x] in
      if x = gcc_version then
        (if found then sys_exit ''Already found'' [] w
         else versions_loop stl_dir gcc_version xs True w)
      else if \<not> isdir (fs w) x_path then versions_loop stl_dir gcc_version xs found w
      else
        (case os_call (rmtree (fs w) x_path) (say ''  - {}'' [APath x_path] w) of
           Inl e \<Rightarrow> Inl e
         | Inr w1 \<Rightarrow> versions_loop stl_dir gcc_version xs found w1))"

definition remove_unused_versions :: "path \<Rightarrow> string \<Rightarrow> string list \<Rightarrow> world \<Rightarrow> world result" where
  "remove_unused_versions stl_dir gcc_version versions_list w =
     (case versions_loop stl_dir gcc_version versions_list False
             (say ''Removing unused compilers versions:'' [] w) of
        Inl e \<Rightarrow> Inl e
      | Inr (found, w1) \<Rightarrow> if \<not> found then sys_exit ''Not found'' [] w1 else Inr w1)"

text \<open>Lines 364 to 377.\<close>

fun abi_loop :: "path \<Rightarrow> string \<Rightarrow> string list \<Rightarrow> bool \<Rightarrow> world \<Rightarrow> (bool \<times> world) result" where
  "abi_loop libs_dir abi [] found w = Inr (found, w)"
| "abi_loop libs_dir abi (x # xs) found w =
     (if x = abi then
        (if found then sys_exit ''Already found'' [] w
         else abi_loop libs_dir abi xs True w)
      else
        (let toremove = libs_dir @ [x] in
         case os_call (rmtree (fs w) toremove) (say ''  - {}'' [APath toremove] w) of
           Inl e \<Rightarrow> Inl e
         | Inr w1 \<Rightarrow> abi_loop libs_dir abi xs found w1))"

definition remove_unused_abi :: "path \<Rightarrow> string \<Rightarrow> string list \<Rightarrow> world \<Rightarrow> world result" where
  "remove_unused_abi libs_dir abi abi_list w =
     (case abi_loop libs_dir abi abi_list False (say ''Removing unused ABI:'' [] w) of
        Inl e \<Rightarrow> Inl e
      | Inr (found, w1) \<Rightarrow> if \<not> found then sys_exit ''Not found'' [] w1 else Inr w1)"

text \<open>Lines 387 to 402.\<close>

fun api_loop :: "path \<Rightarrow> string \<Rightarrow> string list \<Rightarrow> bool \<Rightarrow> world \<Rightarrow> (bool \<times> world) result" where
  "api_loop platforms_dir android_api [] found w = Inr (found, w)"
| "api_loop platforms_dir android_api (x # xs) found w =
     (let toremove = platforms_dir @ [x] in
      if \<not> isdir (fs w) toremove then api_loop platforms_dir android_api xs found w
      else if x = android_api then
        (if found then sys_exit ''Already found'' [] w
         else api_loop platforms_dir android_api xs True w)
      else
        (case os_call (rmtree (fs w) toremove) (say ''  - {}'' [APath toremove] w) of
           Inl e \<Rightarrow> Inl e
         | Inr w1 \<Rightarrow> api_loop platforms_dir android_api xs found w1))"

definition remove_unused_api :: "path \<Rightarrow> string \<Rightarrow> string list \<Rightarrow> world \<Rightarrow> world result" where
  "remove_unused_api platforms_dir android_api api_list w =
     (case api_loop platforms_dir android_api api_list False (say ''Removing unused API:'' [] w) of
        Inl e \<Rightarrow> Inl e
      | Inr (found, w1) \<Rightarrow> if \<not> found then sys_exit ''API not found'' [] w1 else Inr w1)"

text \<open>Lines 415 to 430.\<close>

fun arch_loop :: "path \<Rightarrow> string \<Rightarrow> string list \<Rightarrow> bool \<Rightarrow> world \<Rightarrow> (bool \<times> world) result" where
  "arch_loop api_dir android_arch [] found w = Inr (found, w)"
| "arch_loop api_dir android_arch (x # xs) found w =
     (if x = android_arch then
        (if found then sys_exit ''Already found'' [] w
         else arch_loop api_dir android_arch xs True w)
      else
        (let toremove = api_dir @ [x];
             w1 = say ''  - {}'' [APath toremove] w
         in case (if isdir (fs w1) toremove then os_call (rmtree (fs w1) toremove) w1
                  else os_call (remove (fs w1) toremove) w1) of
              Inl e \<Rightarrow> Inl e
            | Inr w2 \<Rightarrow> arch_loop api_dir android_arch xs found w2))"

definition remove_unused_arch :: "path \<Rightarrow> string \<Rightarrow> string list \<Rightarrow> world \<Rightarrow> world result" where
  "remove_unused_arch api_dir android_arch arch_list w =
     (case arch_loop api_dir android_arch arch_list False (say ''Removing unused architectures:'' [] w) of
        Inl e \<Rightarrow> Inl e
      | Inr (found, w1) \<Rightarrow> if \<not> found then sys_exit ''Not found'' [] w1 else Inr w1)"


text \<open>
  Lines 327 to 353, the compiler version. The result is \<^verbatim>\<open>gcc_version\<close>.
\<close>

definition select_compiler_version :: "args \<Rightarrow> path \<Rightarrow> world \<Rightarrow> (string \<times> world) result" where
  "select_compiler_version a stl_dir w =
     (case truthy (arg_compiler_version a) of
        None \<Rightarrow> sys_exit ''Expected --compiler-version'' [] w
      | Some gcc_version \<Rightarrow>
          let gcc_version_dir = os_path_join stl_dir gcc_version in
          if \<not> os_path_exists (fs w) gcc_version_dir
          then sys_exit ''Directory not exists: {} (--compiler-version)'' [APath gcc_version_dir] w
          else
            (case os_listdir stl_dir w of
               Inl x \<Rightarrow> Inl x
             | Inr versions_list \<Rightarrow>
                 if gcc_version \<notin> set versions_list
                 then sys_exit ''{} not found in {}'' [AStr gcc_version, AStrs versions_list] w
                 else
                   (case remove_unused_versions stl_dir gcc_version versions_list w of
                      Inl x \<Rightarrow> Inl x
                    | Inr w1 \<Rightarrow> Inr (gcc_version, w1))))"

text \<open>Lines 355 to 378, the ABI. The result is \<^verbatim>\<open>args.abi_name\<close>.\<close>

definition select_abi :: "args \<Rightarrow> path \<Rightarrow> world \<Rightarrow> (string \<times> world) result" where
  "select_abi a gcc_version_dir w =
     (case truthy (arg_abi_name a) of
        None \<Rightarrow> sys_exit ''Expected --abi-name'' [] w
      | Some abi \<Rightarrow>
          let libs_dir = gcc_version_dir @ [''libs''];
              abi_dir = os_path_join libs_dir abi
          in
          if \<not> os_path_exists (fs w) abi_dir
          then sys_exit ''Directory not exists: {} (--abi-name)'' [APath abi_dir] w
          else
            (case os_listdir libs_dir w of
               Inl x \<Rightarrow> Inl x
             | Inr abi_list \<Rightarrow>
                 if abi \<notin> set abi_list
                 then sys_exit ''{} not found in {}'' [AStr abi, AStrs abi_list] w
                 else
                   (case remove_unused_abi libs_dir abi abi_list w of
                      Inl x \<Rightarrow> Inl x
                    | Inr w1 \<Rightarrow> Inr (abi, w1))))"


text \<open>Lines 380 to 402. The result is \<^verbatim>\<open>android_api\<close>.\<close>

definition select_api :: "path \<Rightarrow> string \<Rightarrow> world \<Rightarrow> (string \<times> world) result" where
  "select_api platforms_dir api_level w =
     (let android_api = ''android-'' @ api_level;
          android_api_dir = os_path_join platforms_dir android_api
      in
      if \<not> os_path_exists (fs w) android_api_dir
      then sys_exit ''Directory not found: {} (--api-level)'' [APath android_api_dir] w
      else
        (case os_listdir platforms_dir w of
           Inl x \<Rightarrow> Inl x
         | Inr api_list \<Rightarrow>
             if android_api \<notin> set api_list
             then sys_exit ''{} not found in {}'' [AStr android_api, AStrs api_list] w
             else
               (case remove_unused_api platforms_dir android_api api_list w of
                  Inl x \<Rightarrow> Inl x
                | Inr w1 \<Rightarrow> Inr (android_api, w1))))"

text \<open>Lines 406 to 430. The result is \<^verbatim>\<open>android_arch\<close>.\<close>

definition select_arch :: "path \<Rightarrow> string \<Rightarrow> world \<Rightarrow> (string \<times> world) result" where
  "select_arch android_api_dir arch_name w =
     (let android_arch = ''arch-'' @ arch_name;
          android_arch_dir = os_path_join android_api_dir android_arch
      in
      if \<not> os_path_exists (fs w) android_arch_dir
      then sys_exit ''Directory not found: {} (--arch-name)'' [APath android_arch_dir] w
      else
        (case os_listdir android_api_dir w of
           Inl x \<Rightarrow> Inl x
         | Inr arch_list \<Rightarrow>
             if android_arch \<notin> set arch_list
             then sys_exit ''{} not found in {}'' [AStr android_arch, AStrs arch_list] w
             else
               (case remove_unused_arch android_api_dir android_arch arch_list w of
                  Inl x \<Rightarrow> Inl x
                | Inr w1 \<Rightarrow> Inr (android_arch, w1))))"

section \<open>The archive and the whole run\<close>




section \<open>The pruning dimensions\<close>

text \<open>
  The specification speaks of one operation \<^verbatim>\<open>prune(parentDir, siblings, keep)\<close> run once
  for each dimension. In the script it is six loops; \<open>prune\<close> names the loop of a dimension.
\<close>

datatype dimension =
    Toolchains
  | Stl
  | CompilerVersions
  | Abi
  | ApiLevels
  | Architectures

definition prune ::
  "dimension \<Rightarrow> string option \<Rightarrow> path \<Rightarrow> string \<Rightarrow> string list \<Rightarrow> world \<Rightarrow> world result" where
  "prune dm compiler_version parent keep siblings w =
     (case dm of
        Toolchains \<Rightarrow> remove_unused_toolchains compiler_version parent keep siblings w
      | Stl \<Rightarrow> remove_unused_stl parent keep siblings w
      | CompilerVersions \<Rightarrow> remove_unused_versions parent keep siblings w
      | Abi \<Rightarrow> remove_unused_abi parent keep siblings w
      | ApiLevels \<Rightarrow> remove_unused_api parent keep siblings w
      | Architectures \<Rightarrow> remove_unused_arch parent keep siblings w)"

text \<open>The exit of a dimension whose loop never met the kept entry.\<close>

definition not_found_message :: "dimension \<Rightarrow> string" where
  "not_found_message dm =
     (case dm of
        Toolchains \<Rightarrow> ''Toolchain not found''
      | Stl \<Rightarrow> ''STL not found''
      | CompilerVersions \<Rightarrow> ''Not found''
      | Abi \<Rightarrow> ''Not found''
      | ApiLevels \<Rightarrow> ''API not found''
      | Architectures \<Rightarrow> ''Not found'')"

text \<open>The world a run ends in, and the part of a file system at and below a path.\<close>

definition world_of :: "world result \<Rightarrow> world" where
  "world_of r = (case r of Inl (e, w) \<Rightarrow> w | Inr w \<Rightarrow> w)"

definition below :: "filesystem \<Rightarrow> path \<Rightarrow> filesystem" where
  "below f p = filter (\<lambda>(q, n). prefix p q) f"

section \<open>Example worlds\<close>

definition toolchains_world :: world where
  "toolchains_world =
     \<lparr>fs = [([''toolchains''], Dir),
             ([''toolchains'', ''arm-linux-androideabi-4.9''], Dir),
             ([''toolchains'', ''arm-linux-androideabi-4.9'', ''prebuilt''], Dir),
             ([''toolchains'', ''llvm''], Dir),
             ([''toolchains'', ''llvm'', ''prebuilt''], Dir),
             ([''toolchains'', ''x86-4.9''], Dir)],
      stdout = [], requests = [], responses = []\<rparr>"

definition toolchains_world_pruned :: world where
  "toolchains_world_pruned =
     \<lparr>fs = [([''toolchains''], Dir),
             ([''toolchains'', ''arm-linux-androideabi-4.9''], Dir),
             ([''toolchains'', ''arm-linux-androideabi-4.9'', ''prebuilt''], Dir),
             ([''toolchains'', ''llvm''], Dir),
             ([''toolchains'', ''llvm'', ''prebuilt''], Dir)],
      stdout = [(''Removing unused toolchains:'', []),
                (''  - {}'', [APath [''toolchains'', ''x86-4.9'']])],
      requests = [], responses = []\<rparr>"

definition platforms_world :: world where
  "platforms_world =
     \<lparr>fs = [([''platforms''], Dir),
             ([''platforms'', ''android-9''], Dir),
             ([''platforms'', ''android-9'', ''arch-arm''], Dir),
             ([''platforms'', ''README''], File ''text''),
             ([''platforms'', ''android-21''], Dir),
             ([''platforms'', ''android-21'', ''arch-arm''], Dir)],
      stdout = [], requests = [], responses = []\<rparr>"

definition platforms_world_pruned :: world where
  "platforms_world_pruned =
     \<lparr>fs = [([''platforms''], Dir),
             ([''platforms'', ''android-9''], Dir),
             ([''platforms'', ''android-9'', ''arch-arm''], Dir),
             ([''platforms'', ''README''], File ''text'')],
      stdout = [(''Removing unused API:'', []),
                (''  - {}'', [APath [''platforms'', ''android-21'']])],
      requests = [], responses = []\<rparr>"

definition platforms_file_world :: world where
  "platforms_file_world =
     \<lparr>fs = [([''platforms''], Dir),
             ([''platforms'', ''android-9''], File ''not a directory''),
             ([''platforms'', ''android-21''], Dir)],
      stdout = [], requests = [], responses = []\<rparr>"

definition platforms_file_world_pruned :: world where
  "platforms_file_world_pruned =
     \<lparr>fs = [([''platforms''], Dir),
             ([''platforms'', ''android-9''], File ''not a directory'')],
      stdout = [(''Removing unused API:'', []),
                (''  - {}'', [APath [''platforms'', ''android-21'']])],
      requests = [], responses = []\<rparr>"

definition cache_host :: env where
  "cache_host =
     \<lparr>cwd = [], platform_system = ''Linux'',
      sha1_hexdigest = (\<lambda>c. if c = ''NDK'' then ''0123'' else ''ffff''),
      expand = (\<lambda>kind c. None),
      make_tar = (\<lambda>f. [])\<rparr>"

definition cache_file :: file_to_download where
  "cache_file =
     \<lparr>self_url = ''http://host/ndk.zip'', self_sha1 = ''0123'',
      self_local_path = [''_downloads'', ''ndk.zip''], self_unpack_dir = [''_unpacked'']\<rparr>"

definition cache_world :: world where
  "cache_world =
     \<lparr>fs = [([''_downloads''], Dir)], stdout = [], requests = [],
      responses = [NotOk, Body ''NDK'']\<rparr>"

definition kit_tree :: filesystem where
  "kit_tree =
     [([''android-ndk-r10e''], Dir),
      ([''android-ndk-r10e'', ''toolchains''], Dir),
      ([''android-ndk-r10e'', ''toolchains'', ''arm-linux-androideabi-4.9''], Dir),
      ([''android-ndk-r10e'', ''toolchains'', ''llvm''], Dir),
      ([''android-ndk-r10e'', ''toolchains'', ''x86-4.9''], Dir),
      ([''android-ndk-r10e'', ''sources''], Dir),
      ([''android-ndk-r10e'', ''sources'', ''cxx-stl''], Dir),
      ([''android-ndk-r10e'', ''sources'', ''cxx-stl'', ''gnu-libstdc++''], Dir),
      ([''android-ndk-r10e'', ''sources'', ''cxx-stl'', ''gnu-libstdc++'', ''Android.mk''], File ''mk''),
      ([''android-ndk-r10e'', ''sources'', ''cxx-stl'', ''gnu-libstdc++'', ''4.8''], Dir),
      ([''android-ndk-r10e'', ''sources'', ''cxx-stl'', ''gnu-libstdc++'', ''4.9''], Dir),
      ([''android-ndk-r10e'', ''sources'', ''cxx-stl'', ''gnu-libstdc++'', ''4.9'', ''libs''], Dir),
      ([''android-ndk-r10e'', ''sources'', ''cxx-stl'', ''gnu-libstdc++'', ''4.9'', ''libs'', ''armeabi''], Dir),
      ([''android-ndk-r10e'', ''sources'', ''cxx-stl'', ''gnu-libstdc++'', ''4.9'', ''libs'', ''x86''], Dir),
      ([''android-ndk-r10e'', ''sources'', ''cxx-stl'', ''llvm-libc++''], Dir),
      ([''android-ndk-r10e'', ''sources'', ''cxx-stl'', ''llvm-libc++abi''], Dir),
      ([''android-ndk-r10e'', ''platforms''], Dir),
      ([''android-ndk-r10e'', ''platforms'', ''android-9''], Dir),
      ([''android-ndk-r10e'', ''platforms'', ''android-9'', ''arch-arm''], Dir),
      ([''android-ndk-r10e'', ''platforms'', ''android-9'', ''arch-x86''], Dir),
      ([''android-ndk-r10e'', ''platforms'', ''android-21''], Dir)]"

definition kit_host :: env where
  "kit_host =
     \<lparr>cwd = [''work''], platform_system = ''Linux'',
      sha1_hexdigest =
        (\<lambda>c. if c = ''NDK'' then ''c685e5f106f8daa9b5449d0a4f21ee8c0afcb2f6'' else ''da39''),
      expand = (\<lambda>kind c. if kind = ''.bin'' \<and> c = ''NDK'' then Some kit_tree else None),
      make_tar = (\<lambda>f. ''TAR'')\<rparr>"

definition gnu_args :: args where
  "gnu_args =
     \<lparr>arg_toolchain = Some ''arm-linux-androideabi-4.9'', arg_stl = Some ''gnustl_static'',
      arg_compiler_version = Some ''4.9'', arg_abi_name = Some ''armeabi'',
      arg_api_level = Some ''9'', arg_arch_name = Some ''arm'',
      arg_ndk_version = Some ''r10e''\<rparr>"

definition clang_args :: args where
  "clang_args =
     \<lparr>arg_toolchain = Some ''arm-linux-androideabi-clang'', arg_stl = Some ''c++_static'',
      arg_compiler_version = Some ''clang'', arg_abi_name = None,
      arg_api_level = Some ''9'', arg_arch_name = Some ''arm'',
      arg_ndk_version = Some ''r10e''\<rparr>"

definition kit :: path where
  "kit = [''work'', ''_unpacked'', ''android-ndk-r10e'']"

definition work_part :: filesystem where
  "work_part =
     [([''work''], Dir),
      ([''work'', ''_downloads''], Dir),
      ([''work'', ''_unpacked''], Dir),
      ([''work'', ''_pruned''], Dir),
      ([''work'', ''_downloads'', ''android-ndk-r10e.bin''], File ''NDK''),
      (kit, Dir)]"

definition toolchains_part :: filesystem where
  "toolchains_part =
     [(kit @ [''toolchains''], Dir),
      (kit @ [''toolchains'', ''arm-linux-androideabi-4.9''], Dir),
      (kit @ [''toolchains'', ''llvm''], Dir),
      (kit @ [''toolchains'', ''x86-4.9''], Dir)]"

definition stl_part :: filesystem where
  "stl_part =
     [(kit @ [''sources''], Dir),
      (kit @ [''sources'', ''cxx-stl''], Dir),
      (kit @ [''sources'', ''cxx-stl'', ''gnu-libstdc++''], Dir),
      (kit @ [''sources'', ''cxx-stl'', ''gnu-libstdc++'', ''Android.mk''], File ''mk''),
      (kit @ [''sources'', ''cxx-stl'', ''gnu-libstdc++'', ''4.8''], Dir),
      (kit @ [''sources'', ''cxx-stl'', ''gnu-libstdc++'', ''4.9''], Dir),
      (kit @ [''sources'', ''cxx-stl'', ''gnu-libstdc++'', ''4.9'', ''libs''], Dir),
      (kit @ [''sources'', ''cxx-stl'', ''gnu-libstdc++'', ''4.9'', ''libs'', ''armeabi''], Dir),
      (kit @ [''sources'', ''cxx-stl'', ''gnu-libstdc++'', ''4.9'', ''libs'', ''x86''], Dir),
      (kit @ [''sources'', ''cxx-stl'', ''llvm-libc++''], Dir),
      (kit @ [''sources'', ''cxx-stl'', ''llvm-libc++abi''], Dir)]"

definition platforms_part :: filesystem where
  "platforms_part =
     [(kit @ [''platforms''], Dir),
      (kit @ [''platforms'', ''android-9''], Dir),
      (kit @ [''platforms'', ''android-9'', ''arch-arm''], Dir),
      (kit @ [''platforms'', ''android-9'', ''arch-x86''], Dir),
      (kit @ [''platforms'', ''android-21''], Dir)]"

definition unpacked_world :: world where
  "unpacked_world =
     \<lparr>fs = work_part @ toolchains_part @ stl_part @ platforms_part,
      stdout = [], requests = [], responses = []\<rparr>"





section \<open>Facts about the file system\<close>

lemma map_of_filter_key:
  "map_of (filter (\<lambda>(q, n). Q q) f) p = (if Q p then map_of f p else None)"
  by (induction f) auto

lemma names_filter_subtree:
  "names (filter (\<lambda>(q, n). \<not> prefix (d @ [x]) q) f) d = filter (\<lambda>y. y \<noteq> x) (names f d)"
proof (induction f)
  case Nil
  show ?case by (simp add: names_def)
next
  case (Cons e f)
  obtain q n where e: "e = (q, n)" by (cases e)
  show ?case
  proof (cases "q \<noteq> [] \<and> butlast q = d")
    case True
    then have q: "q = d @ [last q]" by (metis append_butlast_last_id)
    have "prefix (d @ [x]) q \<longleftrightarrow> last q = x"
      by (subst q) auto
    with Cons True show ?thesis by (auto simp: names_def e)
  next
    case False
    with Cons show ?thesis by (auto simp: names_def e)
  qed
qed

lemma names_filter_path:
  "names (filter (\<lambda>(q, n). q \<noteq> d @ [x]) f) d = filter (\<lambda>y. y \<noteq> x) (names f d)"
proof (induction f)
  case Nil
  show ?case by (simp add: names_def)
next
  case (Cons e f)
  obtain q n where e: "e = (q, n)" by (cases e)
  show ?case
  proof (cases "q \<noteq> [] \<and> butlast q = d")
    case True
    then have q: "q = d @ [last q]" by (metis append_butlast_last_id)
    have "q = d @ [x] \<longleftrightarrow> last q = x"
      by (subst q) auto
    with Cons True show ?thesis by (auto simp: names_def e)
  next
    case False
    with Cons show ?thesis by (auto simp: names_def e)
  qed
qed

lemma rmtree_names:
  "rmtree f (d @ [x]) = Inr f' \<Longrightarrow> names f' d = filter (\<lambda>y. y \<noteq> x) (names f d)"
  by (auto simp: rmtree_def names_filter_subtree split: option.splits node.splits)

lemma remove_names:
  "remove f (d @ [x]) = Inr f' \<Longrightarrow> names f' d = filter (\<lambda>y. y \<noteq> x) (names f d)"
  by (auto simp: remove_def names_filter_path split: option.splits node.splits)

lemma rmtree_lookup_sibling:
  "rmtree f (d @ [x]) = Inr f' \<Longrightarrow> map_of f' (d @ [y]) = (if y = x then None else map_of f (d @ [y]))"
  by (auto simp: rmtree_def map_of_filter_key split: option.splits node.splits)

lemma remove_lookup_sibling:
  "remove f (d @ [x]) = Inr f' \<Longrightarrow> map_of f' (d @ [y]) = (if y = x then None else map_of f (d @ [y]))"
  by (auto simp: remove_def map_of_filter_key split: option.splits node.splits)

lemma rmtree_isdir: "rmtree f p = Inr f' \<Longrightarrow> isdir f p"
  by (auto simp: rmtree_def isdir_def split: option.splits node.splits)

lemma isdir_rmtree: "isdir f p \<Longrightarrow> \<exists>f'. rmtree f p = Inr f'"
  by (auto simp: rmtree_def isdir_def split: option.splits node.splits)

lemma names_exists: "x \<in> set (names f d) \<longleftrightarrow> path_exists f (d @ [x])"
proof -
  have "x \<in> set (names f d) \<longleftrightarrow> d @ [x] \<in> fst ` set f"
  proof
    assume "x \<in> set (names f d)"
    then obtain q n where "(q, n) \<in> set f" "q \<noteq> []" "butlast q = d" "last q = x"
      by (auto simp: names_def)
    then show "d @ [x] \<in> fst ` set f"
      by (metis append_butlast_last_id fst_conv image_eqI)
  next
    assume "d @ [x] \<in> fst ` set f"
    then show "x \<in> set (names f d)"
      by (force simp: names_def)
  qed
  then show ?thesis
    by (simp add: path_exists_def map_of_eq_None_iff)
qed


lemma fs_say [simp]: "fs (say fmt as w) = fs w"
  by (simp add: say_def)

lemma requests_say [simp]: "requests (say fmt as w) = requests w"
  by (simp add: say_def)

lemma responses_say [simp]: "responses (say fmt as w) = responses w"
  by (simp add: say_def)

lemma sys_exit_Inr [simp]: "sys_exit fmt as w \<noteq> Inr v"
  by (simp add: sys_exit_def)

lemma raise_Inr [simp]: "raise x w \<noteq> Inr v"
  by (simp add: raise_def)

lemma os_call_Inr: "os_call r w = Inr w' \<longleftrightarrow> (\<exists>f. r = Inr f \<and> w' = w\<lparr>fs := f\<rparr>)"
  by (auto simp: os_call_def raise_def split: sum.splits)

lemma os_call_Inl: "os_call r w = Inl z \<longleftrightarrow> (\<exists>x. r = Inl x \<and> z = (Raised x, w))"
  by (auto simp: os_call_def raise_def split: sum.splits)

lemma toolchains_loop_names:
  "toolchains_loop cv d k xs found w = Inr (found', w') \<Longrightarrow>
   names (fs w') d =
     filter (\<lambda>y. \<not> (y \<in> set xs \<and> y \<noteq> k \<and> \<not> (cv = Some ''clang'' \<and> y = ''llvm'')))
       (names (fs w) d)"
proof (induction xs arbitrary: found w)
  case Nil
  then show ?case by simp
next
  case (Cons x xs)
  show ?case
  proof (cases "x \<noteq> k \<and> \<not> (cv = Some ''clang'' \<and> x = ''llvm'')")
    case True
    with Cons.prems obtain f where f: "rmtree (fs w) (d @ [x]) = Inr f"
      and run: "toolchains_loop cv d k xs found (say ''  - {}'' [APath (d @ [x])] w\<lparr>fs := f\<rparr>) = Inr (found', w')"
      by (auto simp: Let_def os_call_Inr split: sum.splits if_splits)
    from Cons.IH [OF run] rmtree_names [OF f] True show ?thesis
      by (auto intro!: filter_cong)
  next
    case False
    with Cons.prems obtain b where "toolchains_loop cv d k xs b w = Inr (found', w')"
      by (auto simp: Let_def split: sum.splits if_splits)
    from Cons.IH [OF this] False show ?thesis
      by (auto intro!: filter_cong)
  qed
qed

lemma toolchains_loop_outcome:
  "(\<exists>e w'. toolchains_loop cv d k xs found w = Inl (Raised e, w')) \<or>
   (\<exists>w'. toolchains_loop cv d k xs found w = Inl (SysExit ''Already found'' [], w') \<and>
      2 \<le> count_list xs k + (if found then 1 else 0)) \<or>
   (\<exists>w'. toolchains_loop cv d k xs found w = Inr (found \<or> k \<in> set xs, w') \<and>
      count_list xs k + (if found then 1 else 0) \<le> 1)"
proof (induction xs arbitrary: found w)
  case Nil
  then show ?case by simp
next
  case (Cons x xs)
  show ?case
  proof (cases "x = k")
    case True
    show ?thesis
    proof (cases found)
      case True
      with \<open>x = k\<close> show ?thesis by (simp add: Let_def sys_exit_def)
    next
      case False
      with \<open>x = k\<close> Cons.IH [of True w] show ?thesis
        by (auto simp: Let_def sys_exit_def)
    qed
  next
    case False
    show ?thesis
    proof (cases "cv = Some ''clang'' \<and> x = ''llvm''")
      case True
      with False Cons.IH [of found w] show ?thesis by (auto simp: Let_def)
    next
      case ex: False
      show ?thesis
      proof (cases "rmtree (fs w) (d @ [x])")
        case (Inl e)
        with False ex show ?thesis by (auto simp: Let_def os_call_def raise_def)
      next
        case (Inr f)
        with False ex Cons.IH [of found "say ''  - {}'' [APath (d @ [x])] w\<lparr>fs := f\<rparr>"] show ?thesis
          by (auto simp: Let_def os_call_def)
      qed
    qed
  qed
qed


lemma rmtree_below_sibling:
  assumes "rmtree f (d @ [x]) = Inr f'" and "x \<noteq> y"
  shows "below f' (d @ [y]) = below f (d @ [y])"
proof -
  have "prefix (d @ [y]) q \<Longrightarrow> \<not> prefix (d @ [x]) q" for q
    using assms(2) by (auto simp: prefix_def)
  then have "filter (\<lambda>(q, n). prefix (d @ [y]) q) (filter (\<lambda>(q, n). \<not> prefix (d @ [x]) q) f) =
             filter (\<lambda>(q, n). prefix (d @ [y]) q) f"
    by (auto simp: filter_filter intro!: filter_cong)
  with assms(1) show ?thesis
    by (auto simp: below_def rmtree_def split: option.splits node.splits)
qed

lemma fs_say_update [simp]: "fs (say fmt as w\<lparr>fs := f\<rparr>) = f"
  by (simp add: say_def)

lemma toolchains_loop_exempt:
  "toolchains_loop (Some ''clang'') d k xs found w = Inr (b, w') \<or>
   toolchains_loop (Some ''clang'') d k xs found w = Inl (e, w') \<Longrightarrow>
   below (fs w') (d @ [''llvm'']) = below (fs w) (d @ [''llvm''])"
proof (induction xs arbitrary: found w)
  case Nil
  then show ?case by simp
next
  case (Cons x xs)
  show ?case
  proof (cases "x \<noteq> k \<and> x \<noteq> ''llvm''")
    case True
    show ?thesis
    proof (cases "rmtree (fs w) (d @ [x])")
      case (Inl z)
      with True Cons.prems show ?thesis
        by (auto simp: Let_def os_call_def raise_def)
    next
      case (Inr f)
      with True Cons.prems
      have "toolchains_loop (Some ''clang'') d k xs found (say ''  - {}'' [APath (d @ [x])] w\<lparr>fs := f\<rparr>) = Inr (b, w') \<or>
            toolchains_loop (Some ''clang'') d k xs found (say ''  - {}'' [APath (d @ [x])] w\<lparr>fs := f\<rparr>) = Inl (e, w')"
        by (auto simp: Let_def os_call_def)
      from Cons.IH [OF this] rmtree_below_sibling [OF Inr] True show ?thesis
        by simp
    qed
  next
    case False
    with Cons.prems have "w' = w \<or> (\<exists>c. toolchains_loop (Some ''clang'') d k xs c w = Inr (b, w') \<or>
            toolchains_loop (Some ''clang'') d k xs c w = Inl (e, w'))"
      by (auto simp: Let_def sys_exit_def split: if_splits)
    with Cons.IH show ?thesis by auto
  qed
qed

lemma toolchains_loop_safe:
  "distinct xs \<Longrightarrow> \<forall>x \<in> set xs. isdir (fs w) (d @ [x]) \<Longrightarrow>
   toolchains_loop cv d k xs found w \<noteq> Inl (Raised e, w')"
proof (induction xs arbitrary: found w)
  case Nil
  then show ?case by simp
next
  case (Cons x xs)
  show ?case
  proof (cases "x \<noteq> k \<and> \<not> (cv = Some ''clang'' \<and> x = ''llvm'')")
    case True
    from Cons.prems obtain f where f: "rmtree (fs w) (d @ [x]) = Inr f"
      using isdir_rmtree by fastforce
    have "\<forall>y \<in> set xs. isdir (fs (say ''  - {}'' [APath (d @ [x])] w\<lparr>fs := f\<rparr>)) (d @ [y])"
      using Cons.prems rmtree_lookup_sibling [OF f] by (auto simp: isdir_def)
    with Cons.IH [of "say ''  - {}'' [APath (d @ [x])] w\<lparr>fs := f\<rparr>" found] Cons.prems(1) True f
    show ?thesis
      by (auto simp: Let_def os_call_def)
  next
    case False
    with Cons.IH [of w] Cons.prems show ?thesis
      by (auto simp: Let_def sys_exit_def)
  qed
qed


lemma stl_loop_names:
  "stl_loop d k xs found w = Inr (found', w') \<Longrightarrow>
   names (fs w') d =
     filter (\<lambda>y. \<not> (y \<in> set xs \<and> y \<noteq> k \<and> \<not> (k = ''llvm-libc++'' \<and> y = ''llvm-libc++abi'')))
       (names (fs w) d)"
proof (induction xs arbitrary: found w)
  case Nil
  then show ?case by simp
next
  case (Cons x xs)
  show ?case
  proof (cases "x \<noteq> k \<and> \<not> (k = ''llvm-libc++'' \<and> x = ''llvm-libc++abi'')")
    case True
    with Cons.prems obtain f where f: "rmtree (fs w) (d @ [x]) = Inr f"
      and run: "stl_loop d k xs found (say ''  - {}'' [APath (d @ [x])] w\<lparr>fs := f\<rparr>) = Inr (found', w')"
      by (auto simp: Let_def os_call_Inr split: sum.splits if_splits)
    from Cons.IH [OF run] rmtree_names [OF f] True show ?thesis
      by (auto intro!: filter_cong)
  next
    case False
    with Cons.prems obtain b where "stl_loop d k xs b w = Inr (found', w')"
      by (auto simp: Let_def split: sum.splits if_splits)
    from Cons.IH [OF this] False show ?thesis
      by (auto intro!: filter_cong)
  qed
qed

lemma stl_loop_outcome:
  "(\<exists>e w'. stl_loop d k xs found w = Inl (Raised e, w')) \<or>
   (\<exists>w'. stl_loop d k xs found w = Inl (SysExit ''Already found'' [], w') \<and>
      2 \<le> count_list xs k + (if found then 1 else 0)) \<or>
   (\<exists>w'. stl_loop d k xs found w = Inr (found \<or> k \<in> set xs, w') \<and>
      count_list xs k + (if found then 1 else 0) \<le> 1)"
proof (induction xs arbitrary: found w)
  case Nil
  then show ?case by simp
next
  case (Cons x xs)
  show ?case
  proof (cases "x = k")
    case True
    show ?thesis
    proof (cases found)
      case True
      with \<open>x = k\<close> show ?thesis by (simp add: Let_def sys_exit_def)
    next
      case False
      with \<open>x = k\<close> Cons.IH [of True w] show ?thesis
        by (auto simp: Let_def sys_exit_def)
    qed
  next
    case False
    show ?thesis
    proof (cases "k = ''llvm-libc++'' \<and> x = ''llvm-libc++abi''")
      case True
      with False Cons.IH [of found w] show ?thesis by (auto simp: Let_def)
    next
      case ex: False
      show ?thesis
      proof (cases "rmtree (fs w) (d @ [x])")
        case (Inl e)
        with False ex show ?thesis by (auto simp: Let_def os_call_def raise_def)
      next
        case (Inr f)
        with False ex Cons.IH [of found "say ''  - {}'' [APath (d @ [x])] w\<lparr>fs := f\<rparr>"] show ?thesis
          by (auto simp: Let_def os_call_def)
      qed
    qed
  qed
qed

lemma stl_loop_exempt:
  "stl_loop d ''llvm-libc++'' xs found w = Inr (b, w') \<or>
   stl_loop d ''llvm-libc++'' xs found w = Inl (e, w') \<Longrightarrow>
   below (fs w') (d @ [''llvm-libc++abi'']) = below (fs w) (d @ [''llvm-libc++abi''])"
proof (induction xs arbitrary: found w)
  case Nil
  then show ?case by simp
next
  case (Cons x xs)
  show ?case
  proof (cases "x \<noteq> ''llvm-libc++'' \<and> x \<noteq> ''llvm-libc++abi''")
    case True
    show ?thesis
    proof (cases "rmtree (fs w) (d @ [x])")
      case (Inl z)
      with True Cons.prems show ?thesis
        by (auto simp: Let_def os_call_def raise_def)
    next
      case (Inr f)
      with True Cons.prems
      have "stl_loop d ''llvm-libc++'' xs found (say ''  - {}'' [APath (d @ [x])] w\<lparr>fs := f\<rparr>) = Inr (b, w') \<or>
            stl_loop d ''llvm-libc++'' xs found (say ''  - {}'' [APath (d @ [x])] w\<lparr>fs := f\<rparr>) = Inl (e, w')"
        by (auto simp: Let_def os_call_def)
      from Cons.IH [OF this] rmtree_below_sibling [OF Inr] True show ?thesis
        by simp
    qed
  next
    case False
    with Cons.prems have "w' = w \<or> (\<exists>c. stl_loop d ''llvm-libc++'' xs c w = Inr (b, w') \<or>
            stl_loop d ''llvm-libc++'' xs c w = Inl (e, w'))"
      by (auto simp: Let_def sys_exit_def split: if_splits)
    with Cons.IH show ?thesis by auto
  qed
qed

lemma stl_loop_safe:
  "distinct xs \<Longrightarrow> \<forall>x \<in> set xs. isdir (fs w) (d @ [x]) \<Longrightarrow>
   stl_loop d k xs found w \<noteq> Inl (Raised e, w')"
proof (induction xs arbitrary: found w)
  case Nil
  then show ?case by simp
next
  case (Cons x xs)
  show ?case
  proof (cases "x \<noteq> k \<and> \<not> (k = ''llvm-libc++'' \<and> x = ''llvm-libc++abi'')")
    case True
    from Cons.prems obtain f where f: "rmtree (fs w) (d @ [x]) = Inr f"
      using isdir_rmtree by fastforce
    have "\<forall>y \<in> set xs. isdir (fs (say ''  - {}'' [APath (d @ [x])] w\<lparr>fs := f\<rparr>)) (d @ [y])"
      using Cons.prems rmtree_lookup_sibling [OF f] by (auto simp: isdir_def)
    with Cons.IH [of "say ''  - {}'' [APath (d @ [x])] w\<lparr>fs := f\<rparr>" found] Cons.prems(1) True f
    show ?thesis
      by (auto simp: Let_def os_call_def)
  next
    case False
    with Cons.IH [of w] Cons.prems show ?thesis
      by (auto simp: Let_def sys_exit_def)
  qed
qed

lemma rmtree_isdir_sibling:
  "rmtree f (d @ [x]) = Inr f' \<Longrightarrow> isdir f' (d @ [y]) \<longleftrightarrow> y \<noteq> x \<and> isdir f (d @ [y])"
  by (simp add: isdir_def rmtree_lookup_sibling)

lemma versions_loop_names:
  "versions_loop d k xs found w = Inr (found', w') \<Longrightarrow>
   names (fs w') d =
     filter (\<lambda>y. \<not> (y \<in> set xs \<and> y \<noteq> k \<and> isdir (fs w) (d @ [y]))) (names (fs w) d)"
proof (induction xs arbitrary: found w)
  case Nil
  then show ?case by simp
next
  case (Cons x xs)
  show ?case
  proof (cases "x \<noteq> k \<and> isdir (fs w) (d @ [x])")
    case True
    with Cons.prems obtain f where f: "rmtree (fs w) (d @ [x]) = Inr f"
      and run: "versions_loop d k xs found (say ''  - {}'' [APath (d @ [x])] w\<lparr>fs := f\<rparr>) = Inr (found', w')"
      by (auto simp: Let_def os_call_Inr split: sum.splits if_splits)
    from Cons.IH [OF run] rmtree_names [OF f] rmtree_isdir_sibling [OF f] True show ?thesis
      by (auto intro!: filter_cong)
  next
    case False
    with Cons.prems obtain b where "versions_loop d k xs b w = Inr (found', w')"
      by (auto simp: Let_def split: sum.splits if_splits)
    from Cons.IH [OF this] False show ?thesis
      by (auto intro!: filter_cong)
  qed
qed

lemma versions_loop_outcome:
  "(\<exists>w'. versions_loop d k xs found w = Inl (SysExit ''Already found'' [], w') \<and>
      2 \<le> count_list xs k + (if found then 1 else 0)) \<or>
   (\<exists>w'. versions_loop d k xs found w = Inr (found \<or> k \<in> set xs, w') \<and>
      count_list xs k + (if found then 1 else 0) \<le> 1)"
proof (induction xs arbitrary: found w)
  case Nil
  then show ?case by simp
next
  case (Cons x xs)
  show ?case
  proof (cases "x = k")
    case True
    show ?thesis
    proof (cases found)
      case True
      with \<open>x = k\<close> show ?thesis by (simp add: Let_def sys_exit_def)
    next
      case False
      with \<open>x = k\<close> Cons.IH [of True w] show ?thesis
        by (auto simp: Let_def sys_exit_def)
    qed
  next
    case False
    show ?thesis
    proof (cases "isdir (fs w) (d @ [x])")
      case True
      then obtain f where f: "rmtree (fs w) (d @ [x]) = Inr f"
        using isdir_rmtree by blast
      with False True Cons.IH [of found "say ''  - {}'' [APath (d @ [x])] w\<lparr>fs := f\<rparr>"] show ?thesis
        by (auto simp: Let_def os_call_def)
    next
      case nd: False
      with False Cons.IH [of found w] show ?thesis by (auto simp: Let_def)
    qed
  qed
qed

lemma abi_loop_names:
  "abi_loop d k xs found w = Inr (found', w') \<Longrightarrow>
   names (fs w') d = filter (\<lambda>y. \<not> (y \<in> set xs \<and> y \<noteq> k)) (names (fs w) d)"
proof (induction xs arbitrary: found w)
  case Nil
  then show ?case by simp
next
  case (Cons x xs)
  show ?case
  proof (cases "x \<noteq> k")
    case True
    with Cons.prems obtain f where f: "rmtree (fs w) (d @ [x]) = Inr f"
      and run: "abi_loop d k xs found (say ''  - {}'' [APath (d @ [x])] w\<lparr>fs := f\<rparr>) = Inr (found', w')"
      by (auto simp: Let_def os_call_Inr split: sum.splits if_splits)
    from Cons.IH [OF run] rmtree_names [OF f] True show ?thesis
      by (auto intro!: filter_cong)
  next
    case False
    with Cons.prems obtain b where "abi_loop d k xs b w = Inr (found', w')"
      by (auto simp: Let_def split: sum.splits if_splits)
    from Cons.IH [OF this] False show ?thesis
      by (auto intro!: filter_cong)
  qed
qed

lemma abi_loop_outcome:
  "(\<exists>e w'. abi_loop d k xs found w = Inl (Raised e, w')) \<or>
   (\<exists>w'. abi_loop d k xs found w = Inl (SysExit ''Already found'' [], w') \<and>
      2 \<le> count_list xs k + (if found then 1 else 0)) \<or>
   (\<exists>w'. abi_loop d k xs found w = Inr (found \<or> k \<in> set xs, w') \<and>
      count_list xs k + (if found then 1 else 0) \<le> 1)"
proof (induction xs arbitrary: found w)
  case Nil
  then show ?case by simp
next
  case (Cons x xs)
  show ?case
  proof (cases "x = k")
    case True
    show ?thesis
    proof (cases found)
      case True
      with \<open>x = k\<close> show ?thesis by (simp add: Let_def sys_exit_def)
    next
      case False
      with \<open>x = k\<close> Cons.IH [of True w] show ?thesis
        by (auto simp: Let_def sys_exit_def)
    qed
  next
    case False
    show ?thesis
    proof (cases "rmtree (fs w) (d @ [x])")
      case (Inl e)
      with False show ?thesis by (auto simp: Let_def os_call_def raise_def)
    next
      case (Inr f)
      with False Cons.IH [of found "say ''  - {}'' [APath (d @ [x])] w\<lparr>fs := f\<rparr>"] show ?thesis
        by (auto simp: Let_def os_call_def)
    qed
  qed
qed

lemma abi_loop_safe:
  "distinct xs \<Longrightarrow> \<forall>x \<in> set xs. isdir (fs w) (d @ [x]) \<Longrightarrow>
   abi_loop d k xs found w \<noteq> Inl (Raised e, w')"
proof (induction xs arbitrary: found w)
  case Nil
  then show ?case by simp
next
  case (Cons x xs)
  show ?case
  proof (cases "x \<noteq> k")
    case True
    from Cons.prems obtain f where f: "rmtree (fs w) (d @ [x]) = Inr f"
      using isdir_rmtree by fastforce
    have "\<forall>y \<in> set xs. isdir (fs (say ''  - {}'' [APath (d @ [x])] w\<lparr>fs := f\<rparr>)) (d @ [y])"
      using Cons.prems rmtree_lookup_sibling [OF f] by (auto simp: isdir_def)
    with Cons.IH [of "say ''  - {}'' [APath (d @ [x])] w\<lparr>fs := f\<rparr>" found] Cons.prems(1) True f
    show ?thesis
      by (auto simp: Let_def os_call_def)
  next
    case False
    with Cons.IH [of w] Cons.prems show ?thesis
      by (auto simp: Let_def sys_exit_def)
  qed
qed


lemma api_loop_names:
  "api_loop d k xs found w = Inr (found', w') \<Longrightarrow>
   names (fs w') d =
     filter (\<lambda>y. \<not> (y \<in> set xs \<and> y \<noteq> k \<and> isdir (fs w) (d @ [y]))) (names (fs w) d)"
proof (induction xs arbitrary: found w)
  case Nil
  then show ?case by simp
next
  case (Cons x xs)
  show ?case
  proof (cases "x \<noteq> k \<and> isdir (fs w) (d @ [x])")
    case True
    with Cons.prems obtain f where f: "rmtree (fs w) (d @ [x]) = Inr f"
      and run: "api_loop d k xs found (say ''  - {}'' [APath (d @ [x])] w\<lparr>fs := f\<rparr>) = Inr (found', w')"
      by (auto simp: Let_def os_call_Inr split: sum.splits if_splits)
    from Cons.IH [OF run] rmtree_names [OF f] rmtree_isdir_sibling [OF f] True show ?thesis
      by (auto intro!: filter_cong)
  next
    case False
    with Cons.prems obtain b where "api_loop d k xs b w = Inr (found', w')"
      by (auto simp: Let_def split: sum.splits if_splits)
    from Cons.IH [OF this] False show ?thesis
      by (auto intro!: filter_cong)
  qed
qed

lemma api_loop_outcome:
  "(\<exists>w'. api_loop d k xs found w = Inl (SysExit ''Already found'' [], w') \<and>
      isdir (fs w) (d @ [k]) \<and> 2 \<le> count_list xs k + (if found then 1 else 0)) \<or>
   (\<exists>w'. api_loop d k xs found w = Inr (found \<or> isdir (fs w) (d @ [k]) \<and> k \<in> set xs, w') \<and>
      (isdir (fs w) (d @ [k]) \<longrightarrow> count_list xs k + (if found then 1 else 0) \<le> 1))"
proof (induction xs arbitrary: found w)
  case Nil
  then show ?case by simp
next
  case (Cons x xs)
  show ?case
  proof (cases "isdir (fs w) (d @ [x])")
    case nd: False
    with Cons.IH [of found w] show ?thesis by (auto simp: Let_def)
  next
    case True
    show ?thesis
    proof (cases "x = k")
      case k: True
      show ?thesis
      proof (cases found)
        case True
        with k \<open>isdir (fs w) (d @ [x])\<close> show ?thesis by (simp add: Let_def sys_exit_def)
      next
        case False
        with k \<open>isdir (fs w) (d @ [x])\<close> Cons.IH [of True w] show ?thesis
          by (auto simp: Let_def sys_exit_def)
      qed
    next
      case False
      from True obtain f where f: "rmtree (fs w) (d @ [x]) = Inr f"
        using isdir_rmtree by blast
      have "isdir f (d @ [k]) = isdir (fs w) (d @ [k])"
        using rmtree_isdir_sibling [OF f, of k] False by auto
      with False True f Cons.IH [of found "say ''  - {}'' [APath (d @ [x])] w\<lparr>fs := f\<rparr>"] show ?thesis
        by (auto simp: Let_def os_call_def)
    qed
  qed
qed

lemma arch_loop_names:
  "arch_loop d k xs found w = Inr (found', w') \<Longrightarrow>
   names (fs w') d = filter (\<lambda>y. \<not> (y \<in> set xs \<and> y \<noteq> k)) (names (fs w) d)"
proof (induction xs arbitrary: found w)
  case Nil
  then show ?case by simp
next
  case (Cons x xs)
  show ?case
  proof (cases "x \<noteq> k")
    case True
    with Cons.prems obtain f where f: "rmtree (fs w) (d @ [x]) = Inr f \<or> remove (fs w) (d @ [x]) = Inr f"
      and run: "arch_loop d k xs found (say ''  - {}'' [APath (d @ [x])] w\<lparr>fs := f\<rparr>) = Inr (found', w')"
      by (auto simp: Let_def os_call_Inr split: sum.splits if_splits)
    from f have "names f d = filter (\<lambda>y. y \<noteq> x) (names (fs w) d)"
      using rmtree_names remove_names by blast
    with Cons.IH [OF run] True show ?thesis
      by (auto intro!: filter_cong)
  next
    case False
    with Cons.prems obtain b where "arch_loop d k xs b w = Inr (found', w')"
      by (auto simp: Let_def split: sum.splits if_splits)
    from Cons.IH [OF this] False show ?thesis
      by (auto intro!: filter_cong)
  qed
qed

lemma arch_loop_outcome:
  "(\<exists>e w'. arch_loop d k xs found w = Inl (Raised e, w')) \<or>
   (\<exists>w'. arch_loop d k xs found w = Inl (SysExit ''Already found'' [], w') \<and>
      2 \<le> count_list xs k + (if found then 1 else 0)) \<or>
   (\<exists>w'. arch_loop d k xs found w = Inr (found \<or> k \<in> set xs, w') \<and>
      count_list xs k + (if found then 1 else 0) \<le> 1)"
proof (induction xs arbitrary: found w)
  case Nil
  then show ?case by simp
next
  case (Cons x xs)
  show ?case
  proof (cases "x = k")
    case True
    show ?thesis
    proof (cases found)
      case True
      with \<open>x = k\<close> show ?thesis by (simp add: Let_def sys_exit_def)
    next
      case False
      with \<open>x = k\<close> Cons.IH [of True w] show ?thesis
        by (auto simp: Let_def sys_exit_def)
    qed
  next
    case False
    show ?thesis
    proof (cases "if isdir (fs w) (d @ [x]) then rmtree (fs w) (d @ [x]) else remove (fs w) (d @ [x])")
      case (Inl e)
      with False show ?thesis by (auto simp: Let_def os_call_def raise_def split: if_splits)
    next
      case (Inr f)
      with False Cons.IH [of found "say ''  - {}'' [APath (d @ [x])] w\<lparr>fs := f\<rparr>"] show ?thesis
        by (auto simp: Let_def os_call_def split: if_splits)
    qed
  qed
qed

lemma arch_loop_safe:
  "distinct xs \<Longrightarrow> \<forall>x \<in> set xs. path_exists (fs w) (d @ [x]) \<Longrightarrow>
   arch_loop d k xs found w \<noteq> Inl (Raised e, w')"
proof (induction xs arbitrary: found w)
  case Nil
  then show ?case by simp
next
  case (Cons x xs)
  show ?case
  proof (cases "x \<noteq> k")
    case True
    from Cons.prems have "path_exists (fs w) (d @ [x])" by simp
    then have "\<exists>f. (if isdir (fs w) (d @ [x]) then rmtree (fs w) (d @ [x]) else remove (fs w) (d @ [x])) = Inr f"
      by (cases "map_of (fs w) (d @ [x])"; cases "the (map_of (fs w) (d @ [x]))")
        (auto simp: path_exists_def isdir_def rmtree_def remove_def)
    then obtain f where f: "(if isdir (fs w) (d @ [x]) then rmtree (fs w) (d @ [x]) else remove (fs w) (d @ [x])) = Inr f"
      by blast
    then have "map_of f (d @ [y]) = (if y = x then None else map_of (fs w) (d @ [y]))" for y
      using rmtree_lookup_sibling remove_lookup_sibling by (auto split: if_splits)
    then have "\<forall>y \<in> set xs. path_exists (fs (say ''  - {}'' [APath (d @ [x])] w\<lparr>fs := f\<rparr>)) (d @ [y])"
      using Cons.prems by (auto simp: path_exists_def)
    with Cons.IH [of "say ''  - {}'' [APath (d @ [x])] w\<lparr>fs := f\<rparr>" found] Cons.prems(1) True f
    show ?thesis
      by (auto simp: Let_def os_call_def split: if_splits)
  next
    case False
    with Cons.IH [of w] Cons.prems show ?thesis
      by (auto simp: Let_def sys_exit_def)
  qed
qed

section \<open>Facts about the example kit\<close>

text \<open>
  The unpacked kit of the examples lies below \<open>kit\<close>. Its paths are kept in the form
  \<open>kit @ p\<close>, so that two of them are compared below \<open>kit\<close> only.
\<close>

lemmas dir_simps =
  top_dir_def downloads_dir_def unpack_dir_def pruned_dir_def archive_suffix_def str_def
  android_archive_local_def android_unpacked_ndk_def android_toolchains_dir_def
  android_stl_dir_def android_platforms_dir_def

lemma kit_fold: "''work'' # ''_unpacked'' # ''android-ndk-r10e'' # x = kit @ x"
  by (simp add: kit_def)

lemma kit_eq:
  "(kit @ y = []) = False"
  "(kit @ y = [a]) = False"
  "(kit @ y = [a, b]) = False"
  "(kit @ y = a # b # c # x) = (a = ''work'' \<and> b = ''_unpacked'' \<and> c = ''android-ndk-r10e'' \<and> y = x)"
  "([] = kit @ y) = False"
  "([a] = kit @ y) = False"
  "([a, b] = kit @ y) = False"
  "(a # b # c # x = kit @ y) = (a = ''work'' \<and> b = ''_unpacked'' \<and> c = ''android-ndk-r10e'' \<and> x = y)"
  "(kit = []) = False"
  "(kit = [a]) = False"
  "(kit = [a, b]) = False"
  "(kit = a # b # c # x) = (a = ''work'' \<and> b = ''_unpacked'' \<and> c = ''android-ndk-r10e'' \<and> x = [])"
  "([] = kit) = False"
  "([a] = kit) = False"
  "([a, b] = kit) = False"
  "(a # b # c # x = kit) = (a = ''work'' \<and> b = ''_unpacked'' \<and> c = ''android-ndk-r10e'' \<and> x = [])"
  by (auto simp: kit_def)

lemma kit_prefix:
  "prefix kit (kit @ y)"
  "prefix (kit @ x) kit = (x = [])"
  "prefix (kit @ x) [] = False"
  "prefix (kit @ x) [a] = False"
  "prefix (kit @ x) [a, b] = False"
  "prefix (kit @ x) (a # b # c # z) = (a = ''work'' \<and> b = ''_unpacked'' \<and> c = ''android-ndk-r10e'' \<and> prefix x z)"
  "prefix kit [] = False"
  "prefix kit [a] = False"
  "prefix kit [a, b] = False"
  "prefix kit (a # b # c # z) = (a = ''work'' \<and> b = ''_unpacked'' \<and> c = ''android-ndk-r10e'')"
  "prefix [a] (kit @ y) = (a = ''work'')"
  "prefix [a, b] (kit @ y) = (a = ''work'' \<and> b = ''_unpacked'')"
  "prefix (a # b # c # z) (kit @ y) = (a = ''work'' \<and> b = ''_unpacked'' \<and> c = ''android-ndk-r10e'' \<and> prefix z y)"
  "prefix [a] kit = (a = ''work'')"
  "prefix [a, b] kit = (a = ''work'' \<and> b = ''_unpacked'')"
  "prefix (a # b # c # z) kit = (a = ''work'' \<and> b = ''_unpacked'' \<and> c = ''android-ndk-r10e'' \<and> z = [])"
  by (auto simp: kit_def)

lemma kit_ends:
  "butlast kit = [''work'', ''_unpacked'']"
  "last kit = ''android-ndk-r10e''"
  "length kit = 3"
  by (simp_all add: kit_def)

lemmas kit_simps = kit_fold kit_eq kit_prefix kit_ends butlast_append

lemmas part_simps = work_part_def toolchains_part_def stl_part_def platforms_part_def

section \<open>What a pruning loop leaves in its directory\<close>

lemmas run_simps =
  prune_def remove_unused_toolchains_def remove_unused_stl_def remove_unused_versions_def
  remove_unused_abi_def remove_unused_api_def remove_unused_arch_def
  Let_def names_def isdir_def path_exists_def os_call_def rmtree_def remove_def
  say_def sys_exit_def raise_def

lemma kept_set:
  "k \<in> set N \<Longrightarrow>
   set (filter (\<lambda>y. \<not> (y \<in> set N \<and> y \<noteq> k \<and> \<not> E y)) N) = insert k {x. x \<in> set N \<and> E x}"
  by auto

lemma remove_unused_toolchains_listing:
  assumes "remove_unused_toolchains cv d k (names (fs w) d) w = Inr w'"
  shows "set (names (fs w') d) =
    insert k {x. x \<in> set (names (fs w) d) \<and> cv = Some ''clang'' \<and> x = ''llvm''}"
proof -
  let ?w = "say ''Removing unused toolchains:'' [] w"
  from assms have run: "toolchains_loop cv d k (names (fs w) d) False ?w = Inr (True, w')"
    by (auto simp: remove_unused_toolchains_def split: sum.splits if_splits)
  with toolchains_loop_outcome [of cv d k "names (fs w) d" False ?w]
  have k: "k \<in> set (names (fs w) d)" by auto
  from toolchains_loop_names [OF run] kept_set [OF k, of "\<lambda>x. cv = Some ''clang'' \<and> x = ''llvm''"]
  show ?thesis by simp
qed

lemma remove_unused_stl_listing:
  assumes "remove_unused_stl d k (names (fs w) d) w = Inr w'"
  shows "set (names (fs w') d) =
    insert k {x. x \<in> set (names (fs w) d) \<and> k = ''llvm-libc++'' \<and> x = ''llvm-libc++abi''}"
proof -
  let ?w = "say ''Removing unused STL:'' [] w"
  from assms have run: "stl_loop d k (names (fs w) d) False ?w = Inr (True, w')"
    by (auto simp: remove_unused_stl_def split: sum.splits if_splits)
  with stl_loop_outcome [of d k "names (fs w) d" False ?w]
  have k: "k \<in> set (names (fs w) d)" by auto
  from stl_loop_names [OF run] kept_set [OF k, of "\<lambda>x. k = ''llvm-libc++'' \<and> x = ''llvm-libc++abi''"]
  show ?thesis by simp
qed

lemma remove_unused_versions_listing:
  assumes "remove_unused_versions d k (names (fs w) d) w = Inr w'"
  shows "set (names (fs w') d) =
    insert k {x. x \<in> set (names (fs w) d) \<and> \<not> isdir (fs w) (d @ [x])}"
proof -
  let ?w = "say ''Removing unused compilers versions:'' [] w"
  from assms have run: "versions_loop d k (names (fs w) d) False ?w = Inr (True, w')"
    by (auto simp: remove_unused_versions_def split: sum.splits if_splits)
  with versions_loop_outcome [of d k "names (fs w) d" False ?w]
  have k: "k \<in> set (names (fs w) d)" by auto
  from versions_loop_names [OF run] kept_set [OF k, of "\<lambda>x. \<not> isdir (fs w) (d @ [x])"]
  show ?thesis by simp
qed

lemma remove_unused_abi_listing:
  assumes "remove_unused_abi d k (names (fs w) d) w = Inr w'"
  shows "set (names (fs w') d) = {k}"
proof -
  let ?w = "say ''Removing unused ABI:'' [] w"
  from assms have run: "abi_loop d k (names (fs w) d) False ?w = Inr (True, w')"
    by (auto simp: remove_unused_abi_def split: sum.splits if_splits)
  with abi_loop_outcome [of d k "names (fs w) d" False ?w]
  have k: "k \<in> set (names (fs w) d)" by auto
  from abi_loop_names [OF run] kept_set [OF k, of "\<lambda>x. False"]
  show ?thesis by simp
qed

lemma remove_unused_api_listing:
  assumes "remove_unused_api d k (names (fs w) d) w = Inr w'"
  shows "set (names (fs w') d) =
    insert k {x. x \<in> set (names (fs w) d) \<and> \<not> isdir (fs w) (d @ [x])}"
proof -
  let ?w = "say ''Removing unused API:'' [] w"
  from assms have run: "api_loop d k (names (fs w) d) False ?w = Inr (True, w')"
    by (auto simp: remove_unused_api_def split: sum.splits if_splits)
  with api_loop_outcome [of d k "names (fs w) d" False ?w]
  have k: "k \<in> set (names (fs w) d)" by auto
  from api_loop_names [OF run] kept_set [OF k, of "\<lambda>x. \<not> isdir (fs w) (d @ [x])"]
  show ?thesis by simp
qed

lemma remove_unused_arch_listing:
  assumes "remove_unused_arch d k (names (fs w) d) w = Inr w'"
  shows "set (names (fs w') d) = {k}"
proof -
  let ?w = "say ''Removing unused architectures:'' [] w"
  from assms have run: "arch_loop d k (names (fs w) d) False ?w = Inr (True, w')"
    by (auto simp: remove_unused_arch_def split: sum.splits if_splits)
  with arch_loop_outcome [of d k "names (fs w) d" False ?w]
  have k: "k \<in> set (names (fs w) d)" by auto
  from arch_loop_names [OF run] kept_set [OF k, of "\<lambda>x. False"]
  show ?thesis by simp
qed

text \<open>
  C1, as the code has it. The loops of the toolchains, of the standard libraries, of the
  ABIs and of the architectures delete every sibling but the kept entry and the exempted
  one: when such a loop succeeds on the listing of its directory, the directory lists the
  kept entry, \<^verbatim>\<open>llvm\<close> beside it when the compiler version is \<^verbatim>\<open>clang\<close>,
  \<^verbatim>\<open>llvm-libc++abi\<close> beside \<^verbatim>\<open>llvm-libc++\<close>, and nothing else. The loops of the compiler
  versions and of the API levels skip what is not a directory: when they succeed, the
  directory lists the kept entry and every sibling that is a plain file.
\<close>

theorem prune_listing:
  assumes "prune dm cv parent keep (names (fs w) parent) w = Inr w'"
  shows "set (names (fs w') parent) =
     insert keep
       (case dm of
          Toolchains \<Rightarrow> {x. x \<in> set (names (fs w) parent) \<and> cv = Some ''clang'' \<and> x = ''llvm''}
        | Stl \<Rightarrow> {x. x \<in> set (names (fs w) parent) \<and> keep = ''llvm-libc++'' \<and> x = ''llvm-libc++abi''}
        | CompilerVersions \<Rightarrow> {x. x \<in> set (names (fs w) parent) \<and> \<not> isdir (fs w) (parent @ [x])}
        | Abi \<Rightarrow> {}
        | ApiLevels \<Rightarrow> {x. x \<in> set (names (fs w) parent) \<and> \<not> isdir (fs w) (parent @ [x])}
        | Architectures \<Rightarrow> {})"
proof (cases dm)
  case Toolchains
  with assms show ?thesis by (simp add: prune_def remove_unused_toolchains_listing)
next
  case Stl
  with assms show ?thesis by (simp add: prune_def remove_unused_stl_listing)
next
  case CompilerVersions
  with assms show ?thesis by (simp add: prune_def remove_unused_versions_listing)
next
  case Abi
  with assms show ?thesis by (simp add: prune_def remove_unused_abi_listing)
next
  case ApiLevels
  with assms show ?thesis by (simp add: prune_def remove_unused_api_listing)
next
  case Architectures
  with assms show ?thesis by (simp add: prune_def remove_unused_arch_listing)
qed


theorem prune_listing_witness:
  "prune Toolchains (Some ''clang'') [''toolchains''] ''arm-linux-androideabi-4.9''
     (names (fs toolchains_world) [''toolchains'']) toolchains_world = Inr toolchains_world_pruned \<and>
   set (names (fs toolchains_world_pruned) [''toolchains'']) = {''arm-linux-androideabi-4.9'', ''llvm''}"
proof -
  have run: "prune Toolchains (Some ''clang'') [''toolchains''] ''arm-linux-androideabi-4.9''
     (names (fs toolchains_world) [''toolchains'']) toolchains_world = Inr toolchains_world_pruned"
    by (simp add: run_simps toolchains_world_def toolchains_world_pruned_def)
  have "names (fs toolchains_world) [''toolchains''] = [''arm-linux-androideabi-4.9'', ''llvm'', ''x86-4.9'']"
    by (simp add: names_def toolchains_world_def)
  with prune_listing [OF run] run show ?thesis
    by auto
qed

theorem prune_listing_counterexample:
  "prune ApiLevels None [''platforms''] ''android-9''
     (names (fs platforms_world) [''platforms'']) platforms_world = Inr platforms_world_pruned \<and>
   \<not> isdir (fs platforms_world) [''platforms'', ''README''] \<and>
   names (fs platforms_world_pruned) [''platforms''] = [''android-9'', ''README''] \<and>
   set (names (fs platforms_world_pruned) [''platforms'']) \<noteq> {''android-9''}"
  by (simp add: run_simps platforms_world_def platforms_world_pruned_def)

section \<open>How a pruning loop ends\<close>

lemma finish_outcome:
  fixes n :: nat
  assumes "(\<exists>e w'. r = Inl (Raised e, w')) \<or>
           (\<exists>w'. r = Inl (SysExit ''Already found'' [], w') \<and> 2 \<le> n) \<or>
           (\<exists>w'. r = Inr (b, w') \<and> n \<le> 1)"
    and "b \<longleftrightarrow> n \<noteq> 0"
  shows "(\<exists>e w'. (case r of Inl z \<Rightarrow> Inl z | Inr (found, w1) \<Rightarrow>
                     if \<not> found then sys_exit msg [] w1 else Inr w1) = Inl (Raised e, w')) \<or>
         (n = 0 \<and> (\<exists>w'. (case r of Inl z \<Rightarrow> Inl z | Inr (found, w1) \<Rightarrow>
                     if \<not> found then sys_exit msg [] w1 else Inr w1) = Inl (SysExit msg [], w'))) \<or>
         (n = 1 \<and> (\<exists>w'. (case r of Inl z \<Rightarrow> Inl z | Inr (found, w1) \<Rightarrow>
                     if \<not> found then sys_exit msg [] w1 else Inr w1) = Inr w')) \<or>
         (2 \<le> n \<and> (\<exists>w'. (case r of Inl z \<Rightarrow> Inl z | Inr (found, w1) \<Rightarrow>
                     if \<not> found then sys_exit msg [] w1 else Inr w1) = Inl (SysExit ''Already found'' [], w')))"
proof -
  consider (raised) e w' where "r = Inl (Raised e, w')"
    | (twice) w' where "r = Inl (SysExit ''Already found'' [], w')" "2 \<le> n"
    | (finished) w' where "r = Inr (b, w')" "n \<le> 1"
    using assms(1) by blast
  then show ?thesis
  proof cases
    case raised
    then show ?thesis by simp
  next
    case twice
    then show ?thesis by simp
  next
    case finished
    show ?thesis
    proof (cases b)
      case True
      with assms(2) finished have "n = 1" by simp
      with finished True show ?thesis by simp
    next
      case False
      with assms(2) have "n = 0" by simp
      with finished False show ?thesis by (simp add: sys_exit_def)
    qed
  qed
qed

lemma remove_unused_toolchains_outcome:
  "(\<exists>e w'. remove_unused_toolchains cv d k xs w = Inl (Raised e, w')) \<or>
   (count_list xs k = 0 \<and> (\<exists>w'. remove_unused_toolchains cv d k xs w = Inl (SysExit ''Toolchain not found'' [], w'))) \<or>
   (count_list xs k = 1 \<and> (\<exists>w'. remove_unused_toolchains cv d k xs w = Inr w')) \<or>
   (2 \<le> count_list xs k \<and> (\<exists>w'. remove_unused_toolchains cv d k xs w = Inl (SysExit ''Already found'' [], w')))"
  unfolding remove_unused_toolchains_def
  using toolchains_loop_outcome [of cv d k xs False "say ''Removing unused toolchains:'' [] w"]
  by (intro finish_outcome [where b = "k \<in> set xs"]) (simp_all add: count_list_0_iff)

lemma remove_unused_stl_outcome:
  "(\<exists>e w'. remove_unused_stl d k xs w = Inl (Raised e, w')) \<or>
   (count_list xs k = 0 \<and> (\<exists>w'. remove_unused_stl d k xs w = Inl (SysExit ''STL not found'' [], w'))) \<or>
   (count_list xs k = 1 \<and> (\<exists>w'. remove_unused_stl d k xs w = Inr w')) \<or>
   (2 \<le> count_list xs k \<and> (\<exists>w'. remove_unused_stl d k xs w = Inl (SysExit ''Already found'' [], w')))"
  unfolding remove_unused_stl_def
  using stl_loop_outcome [of d k xs False "say ''Removing unused STL:'' [] w"]
  by (intro finish_outcome [where b = "k \<in> set xs"]) (simp_all add: count_list_0_iff)

lemma remove_unused_versions_outcome:
  "(\<exists>e w'. remove_unused_versions d k xs w = Inl (Raised e, w')) \<or>
   (count_list xs k = 0 \<and> (\<exists>w'. remove_unused_versions d k xs w = Inl (SysExit ''Not found'' [], w'))) \<or>
   (count_list xs k = 1 \<and> (\<exists>w'. remove_unused_versions d k xs w = Inr w')) \<or>
   (2 \<le> count_list xs k \<and> (\<exists>w'. remove_unused_versions d k xs w = Inl (SysExit ''Already found'' [], w')))"
  unfolding remove_unused_versions_def
  using versions_loop_outcome [of d k xs False "say ''Removing unused compilers versions:'' [] w"]
  by (intro finish_outcome [where b = "k \<in> set xs"]) (simp_all add: count_list_0_iff)

lemma remove_unused_abi_outcome:
  "(\<exists>e w'. remove_unused_abi d k xs w = Inl (Raised e, w')) \<or>
   (count_list xs k = 0 \<and> (\<exists>w'. remove_unused_abi d k xs w = Inl (SysExit ''Not found'' [], w'))) \<or>
   (count_list xs k = 1 \<and> (\<exists>w'. remove_unused_abi d k xs w = Inr w')) \<or>
   (2 \<le> count_list xs k \<and> (\<exists>w'. remove_unused_abi d k xs w = Inl (SysExit ''Already found'' [], w')))"
  unfolding remove_unused_abi_def
  using abi_loop_outcome [of d k xs False "say ''Removing unused ABI:'' [] w"]
  by (intro finish_outcome [where b = "k \<in> set xs"]) (simp_all add: count_list_0_iff)

lemma remove_unused_api_outcome:
  "(\<exists>e w'. remove_unused_api d k xs w = Inl (Raised e, w')) \<or>
   ((if isdir (fs w) (d @ [k]) then count_list xs k else 0) = 0 \<and>
      (\<exists>w'. remove_unused_api d k xs w = Inl (SysExit ''API not found'' [], w'))) \<or>
   ((if isdir (fs w) (d @ [k]) then count_list xs k else 0) = 1 \<and>
      (\<exists>w'. remove_unused_api d k xs w = Inr w')) \<or>
   (2 \<le> (if isdir (fs w) (d @ [k]) then count_list xs k else 0) \<and>
      (\<exists>w'. remove_unused_api d k xs w = Inl (SysExit ''Already found'' [], w')))"
proof (cases "isdir (fs w) (d @ [k])")
  case True
  have "0 < count_list xs k \<longleftrightarrow> k \<in> set xs"
    using count_list_0_iff [of xs k] by auto
  with True api_loop_outcome [of d k xs False "say ''Removing unused API:'' [] w"]
  show ?thesis
    unfolding remove_unused_api_def
    by (intro finish_outcome [where b = "k \<in> set xs"]) auto
next
  case False
  with api_loop_outcome [of d k xs False "say ''Removing unused API:'' [] w"]
  show ?thesis
    by (auto simp: remove_unused_api_def sys_exit_def)
qed

lemma remove_unused_arch_outcome:
  "(\<exists>e w'. remove_unused_arch d k xs w = Inl (Raised e, w')) \<or>
   (count_list xs k = 0 \<and> (\<exists>w'. remove_unused_arch d k xs w = Inl (SysExit ''Not found'' [], w'))) \<or>
   (count_list xs k = 1 \<and> (\<exists>w'. remove_unused_arch d k xs w = Inr w')) \<or>
   (2 \<le> count_list xs k \<and> (\<exists>w'. remove_unused_arch d k xs w = Inl (SysExit ''Already found'' [], w')))"
  unfolding remove_unused_arch_def
  using arch_loop_outcome [of d k xs False "say ''Removing unused architectures:'' [] w"]
  by (intro finish_outcome [where b = "k \<in> set xs"]) (simp_all add: count_list_0_iff)

lemma prune_safe:
  assumes "distinct xs" and "\<forall>x \<in> set xs. isdir (fs w) (d @ [x])"
  shows "prune dm cv d k xs w \<noteq> Inl (Raised e, w')"
proof (cases dm)
  case Toolchains
  with toolchains_loop_safe [OF assms(1), of "say ''Removing unused toolchains:'' [] w" d cv k False e]
    assms(2)
  show ?thesis
    by (auto simp: prune_def remove_unused_toolchains_def sys_exit_def split: sum.splits if_splits)
next
  case Stl
  with stl_loop_safe [OF assms(1), of "say ''Removing unused STL:'' [] w" d k False e] assms(2)
  show ?thesis
    by (auto simp: prune_def remove_unused_stl_def sys_exit_def split: sum.splits if_splits)
next
  case CompilerVersions
  with versions_loop_outcome [of d k xs False "say ''Removing unused compilers versions:'' [] w"]
  show ?thesis
    by (auto simp: prune_def remove_unused_versions_def sys_exit_def split: sum.splits if_splits)
next
  case Abi
  with abi_loop_safe [OF assms(1), of "say ''Removing unused ABI:'' [] w" d k False e] assms(2)
  show ?thesis
    by (auto simp: prune_def remove_unused_abi_def sys_exit_def split: sum.splits if_splits)
next
  case ApiLevels
  with api_loop_outcome [of d k xs False "say ''Removing unused API:'' [] w"]
  show ?thesis
    by (auto simp: prune_def remove_unused_api_def sys_exit_def split: sum.splits if_splits)
next
  case Architectures
  from assms(2) have "\<forall>x \<in> set xs. path_exists (fs (say ''Removing unused architectures:'' [] w)) (d @ [x])"
    by (auto simp: isdir_def path_exists_def)
  with Architectures arch_loop_safe [OF assms(1), of "say ''Removing unused architectures:'' [] w" d k False e]
  show ?thesis
    by (auto simp: prune_def remove_unused_arch_def sys_exit_def split: sum.splits if_splits)
qed

lemma distinct_count_list:
  "distinct xs \<Longrightarrow> count_list xs x = (if x \<in> set xs then 1 else 0)"
  by (induction xs) auto

lemma prune_outcome_cases:
  "(\<exists>e w'. prune dm cv parent keep siblings w = Inl (Raised e, w')) \<or>
   ((if dm = ApiLevels \<and> \<not> isdir (fs w) (parent @ [keep]) then 0 else count_list siblings keep) = 0 \<and>
      (\<exists>w'. prune dm cv parent keep siblings w = Inl (SysExit (not_found_message dm) [], w'))) \<or>
   ((if dm = ApiLevels \<and> \<not> isdir (fs w) (parent @ [keep]) then 0 else count_list siblings keep) = 1 \<and>
      (\<exists>w'. prune dm cv parent keep siblings w = Inr w')) \<or>
   (2 \<le> (if dm = ApiLevels \<and> \<not> isdir (fs w) (parent @ [keep]) then 0 else count_list siblings keep) \<and>
      (\<exists>w'. prune dm cv parent keep siblings w = Inl (SysExit ''Already found'' [], w')))"
proof (cases dm)
  case Toolchains
  with remove_unused_toolchains_outcome [of cv parent keep siblings w] show ?thesis
    by (simp add: prune_def not_found_message_def)
next
  case Stl
  with remove_unused_stl_outcome [of parent keep siblings w] show ?thesis
    by (simp add: prune_def not_found_message_def)
next
  case CompilerVersions
  with remove_unused_versions_outcome [of parent keep siblings w] show ?thesis
    by (simp add: prune_def not_found_message_def)
next
  case Abi
  with remove_unused_abi_outcome [of parent keep siblings w] show ?thesis
    by (simp add: prune_def not_found_message_def)
next
  case ApiLevels
  with remove_unused_api_outcome [of parent keep siblings w] show ?thesis
    by (cases "isdir (fs w) (parent @ [keep])") (simp_all add: prune_def not_found_message_def)
next
  case Architectures
  with remove_unused_arch_outcome [of parent keep siblings w] show ?thesis
    by (simp add: prune_def not_found_message_def)
qed

text \<open>
  C2, as the code has it. A pruning loop ends in one of four ways: a deletion raises an
  error of the operating system; or the kept entry was never met, and the run exits with
  the dimension's not-found message; or it was met exactly once, and the loop succeeds; or
  it was met a second time, and the run exits with \<^verbatim>\<open>Already found\<close>. The entry is met
  as often as it occurs among the siblings, except that the loop of the API levels passes
  over an entry that is not a directory, so that a kept entry that is a plain file is
  never met. When the siblings are distinct directories no deletion raises: the loop
  succeeds if the kept entry is among them and exits with the not-found message if not.
\<close>

theorem prune_outcome:
  "((\<exists>e w'. prune dm cv parent keep siblings w = Inl (Raised e, w')) \<or>
    ((if dm = ApiLevels \<and> \<not> isdir (fs w) (parent @ [keep]) then 0 else count_list siblings keep) = 0 \<and>
       (\<exists>w'. prune dm cv parent keep siblings w = Inl (SysExit (not_found_message dm) [], w'))) \<or>
    ((if dm = ApiLevels \<and> \<not> isdir (fs w) (parent @ [keep]) then 0 else count_list siblings keep) = 1 \<and>
       (\<exists>w'. prune dm cv parent keep siblings w = Inr w')) \<or>
    (2 \<le> (if dm = ApiLevels \<and> \<not> isdir (fs w) (parent @ [keep]) then 0 else count_list siblings keep) \<and>
       (\<exists>w'. prune dm cv parent keep siblings w = Inl (SysExit ''Already found'' [], w')))) \<and>
   (distinct siblings \<and> (\<forall>x \<in> set siblings. isdir (fs w) (parent @ [x])) \<longrightarrow>
      (if keep \<in> set siblings
       then \<exists>w'. prune dm cv parent keep siblings w = Inr w'
       else \<exists>w'. prune dm cv parent keep siblings w = Inl (SysExit (not_found_message dm) [], w')))"
proof (intro conjI impI)
  show "(\<exists>e w'. prune dm cv parent keep siblings w = Inl (Raised e, w')) \<or>
    ((if dm = ApiLevels \<and> \<not> isdir (fs w) (parent @ [keep]) then 0 else count_list siblings keep) = 0 \<and>
       (\<exists>w'. prune dm cv parent keep siblings w = Inl (SysExit (not_found_message dm) [], w'))) \<or>
    ((if dm = ApiLevels \<and> \<not> isdir (fs w) (parent @ [keep]) then 0 else count_list siblings keep) = 1 \<and>
       (\<exists>w'. prune dm cv parent keep siblings w = Inr w')) \<or>
    (2 \<le> (if dm = ApiLevels \<and> \<not> isdir (fs w) (parent @ [keep]) then 0 else count_list siblings keep) \<and>
       (\<exists>w'. prune dm cv parent keep siblings w = Inl (SysExit ''Already found'' [], w')))"
    by (rule prune_outcome_cases)
next
  assume a: "distinct siblings \<and> (\<forall>x \<in> set siblings. isdir (fs w) (parent @ [x]))"
  then have safe: "prune dm cv parent keep siblings w \<noteq> Inl (Raised e, w')" for e w'
    using prune_safe by blast
  from a have n: "count_list siblings keep = (if keep \<in> set siblings then 1 else 0)"
    by (simp add: distinct_count_list)
  show "if keep \<in> set siblings
       then \<exists>w'. prune dm cv parent keep siblings w = Inr w'
       else \<exists>w'. prune dm cv parent keep siblings w = Inl (SysExit (not_found_message dm) [], w')"
  proof (cases "keep \<in> set siblings")
    case True
    with a have "isdir (fs w) (parent @ [keep])" by blast
    with True n safe prune_outcome_cases [of dm cv parent keep siblings w] show ?thesis
      by auto
  next
    case False
    with n safe prune_outcome_cases [of dm cv parent keep siblings w] show ?thesis
      by (auto split: if_splits)
  qed
qed

theorem prune_outcome_witness:
  "distinct (names (fs toolchains_world) [''toolchains'']) \<and>
   list_all (\<lambda>x. isdir (fs toolchains_world) ([''toolchains''] @ [x]))
     (names (fs toolchains_world) [''toolchains'']) \<and>
   count_list (names (fs toolchains_world) [''toolchains'']) ''x86-4.9'' = 1 \<and>
   (\<exists>w'. prune Toolchains None [''toolchains''] ''x86-4.9''
           (names (fs toolchains_world) [''toolchains'']) toolchains_world = Inr w')"
proof -
  have l: "names (fs toolchains_world) [''toolchains''] = [''arm-linux-androideabi-4.9'', ''llvm'', ''x86-4.9'']"
    by (simp add: names_def toolchains_world_def)
  have d: "distinct (names (fs toolchains_world) [''toolchains'']) \<and>
      (\<forall>x \<in> set (names (fs toolchains_world) [''toolchains'']). isdir (fs toolchains_world) ([''toolchains''] @ [x]))"
    by (simp add: l) (simp add: isdir_def toolchains_world_def)
  from prune_outcome [of Toolchains None "[''toolchains'']" "''x86-4.9''"
      "names (fs toolchains_world) [''toolchains'']" toolchains_world] d
  have "\<exists>w'. prune Toolchains None [''toolchains''] ''x86-4.9''
           (names (fs toolchains_world) [''toolchains'']) toolchains_world = Inr w'"
    by (simp add: l)
  with d show ?thesis
    by (simp add: l list_all_iff)
qed

theorem prune_outcome_counterexample:
  "path_exists (fs platforms_file_world) [''platforms'', ''android-9''] \<and>
   count_list (names (fs platforms_file_world) [''platforms'']) ''android-9'' = 1 \<and>
   prune ApiLevels None [''platforms''] ''android-9''
     (names (fs platforms_file_world) [''platforms'']) platforms_file_world =
     Inl (SysExit ''API not found'' [], platforms_file_world_pruned)"
  by (simp add: run_simps platforms_file_world_def platforms_file_world_pruned_def)

section \<open>The exempted directories survive\<close>

lemma map_of_below: "map_of (below f p) p = map_of f p"
  by (simp add: below_def map_of_filter_key)

lemma below_names:
  assumes "below f' (d @ [x]) = below f (d @ [x])"
  shows "x \<in> set (names f' d) \<longleftrightarrow> x \<in> set (names f d)"
proof -
  have "map_of f' (d @ [x]) = map_of f (d @ [x])"
    using assms map_of_below by metis
  then show ?thesis
    by (simp add: names_exists path_exists_def)
qed

lemma remove_unused_toolchains_exempt:
  "below (fs (world_of (remove_unused_toolchains (Some ''clang'') d k xs w))) (d @ [''llvm'']) =
   below (fs w) (d @ [''llvm''])"
proof (cases "toolchains_loop (Some ''clang'') d k xs False (say ''Removing unused toolchains:'' [] w)")
  case (Inl z)
  obtain e w' where z: "z = (e, w')" by (cases z)
  from toolchains_loop_exempt [of d k xs False "say ''Removing unused toolchains:'' [] w" _ w' e] Inl z
  show ?thesis
    by (simp add: remove_unused_toolchains_def world_of_def)
next
  case (Inr z)
  obtain b w' where z: "z = (b, w')" by (cases z)
  from toolchains_loop_exempt [of d k xs False "say ''Removing unused toolchains:'' [] w" b w'] Inr z
  show ?thesis
    by (simp add: remove_unused_toolchains_def world_of_def sys_exit_def)
qed

lemma remove_unused_stl_exempt:
  "below (fs (world_of (remove_unused_stl d ''llvm-libc++'' xs w))) (d @ [''llvm-libc++abi'']) =
   below (fs w) (d @ [''llvm-libc++abi''])"
proof (cases "stl_loop d ''llvm-libc++'' xs False (say ''Removing unused STL:'' [] w)")
  case (Inl z)
  obtain e w' where z: "z = (e, w')" by (cases z)
  from stl_loop_exempt [of d xs False "say ''Removing unused STL:'' [] w" _ w' e] Inl z
  show ?thesis
    by (simp add: remove_unused_stl_def world_of_def)
next
  case (Inr z)
  obtain b w' where z: "z = (b, w')" by (cases z)
  from stl_loop_exempt [of d xs False "say ''Removing unused STL:'' [] w" b w'] Inr z
  show ?thesis
    by (simp add: remove_unused_stl_def world_of_def sys_exit_def)
qed

text \<open>
  C5. However the loop of the toolchains ends when the compiler version is \<^verbatim>\<open>clang\<close>,
  the directory \<^verbatim>\<open>llvm\<close> and everything below it are as they were before, whatever the
  kept entry is; and however the loop of the standard libraries ends when the chosen
  library is \<^verbatim>\<open>llvm-libc++\<close>, so are \<^verbatim>\<open>llvm-libc++abi\<close> and everything below it. An
  exempted entry that was listed before the loop is listed after it.
\<close>

theorem prune_exemptions:
  "below (fs (world_of (prune Toolchains (Some ''clang'') parent keep siblings w))) (parent @ [''llvm'']) =
     below (fs w) (parent @ [''llvm'']) \<and>
   (''llvm'' \<in> set (names (fs (world_of (prune Toolchains (Some ''clang'') parent keep siblings w))) parent)) =
     (''llvm'' \<in> set (names (fs w) parent)) \<and>
   below (fs (world_of (prune Stl cv parent ''llvm-libc++'' siblings w))) (parent @ [''llvm-libc++abi'']) =
     below (fs w) (parent @ [''llvm-libc++abi'']) \<and>
   (''llvm-libc++abi'' \<in> set (names (fs (world_of (prune Stl cv parent ''llvm-libc++'' siblings w))) parent)) =
     (''llvm-libc++abi'' \<in> set (names (fs w) parent))"
proof -
  have t: "below (fs (world_of (prune Toolchains (Some ''clang'') parent keep siblings w))) (parent @ [''llvm'']) =
     below (fs w) (parent @ [''llvm''])"
    by (simp add: prune_def remove_unused_toolchains_exempt)
  have s: "below (fs (world_of (prune Stl cv parent ''llvm-libc++'' siblings w))) (parent @ [''llvm-libc++abi'']) =
     below (fs w) (parent @ [''llvm-libc++abi''])"
    by (simp add: prune_def remove_unused_stl_exempt)
  from t s below_names [OF t] below_names [OF s] show ?thesis
    by simp
qed

theorem prune_exemptions_witness:
  "''llvm'' \<noteq> ''arm-linux-androideabi-4.9'' \<and>
   world_of (prune Toolchains (Some ''clang'') [''toolchains''] ''arm-linux-androideabi-4.9''
       (names (fs toolchains_world) [''toolchains'']) toolchains_world) = toolchains_world_pruned \<and>
   below (fs toolchains_world_pruned) [''toolchains'', ''llvm''] =
     [([''toolchains'', ''llvm''], Dir), ([''toolchains'', ''llvm'', ''prebuilt''], Dir)] \<and>
   ''llvm'' \<in> set (names (fs toolchains_world_pruned) [''toolchains'']) \<and>
   ''x86-4.9'' \<notin> set (names (fs toolchains_world_pruned) [''toolchains''])"
proof -
  have run: "world_of (prune Toolchains (Some ''clang'') [''toolchains''] ''arm-linux-androideabi-4.9''
       (names (fs toolchains_world) [''toolchains'']) toolchains_world) = toolchains_world_pruned"
    by (simp add: run_simps world_of_def toolchains_world_def toolchains_world_pruned_def)
  have before: "below (fs toolchains_world) ([''toolchains''] @ [''llvm'']) =
     [([''toolchains'', ''llvm''], Dir), ([''toolchains'', ''llvm'', ''prebuilt''], Dir)]"
    by (simp add: below_def toolchains_world_def)
  have "''llvm'' \<in> set (names (fs toolchains_world) [''toolchains''])"
    by (simp add: names_def toolchains_world_def)
  with prune_exemptions [of "[''toolchains'']" "''arm-linux-androideabi-4.9''"
      "names (fs toolchains_world) [''toolchains'']" toolchains_world] run before
  have "below (fs toolchains_world_pruned) [''toolchains'', ''llvm''] =
     [([''toolchains'', ''llvm''], Dir), ([''toolchains'', ''llvm'', ''prebuilt''], Dir)] \<and>
   ''llvm'' \<in> set (names (fs toolchains_world_pruned) [''toolchains''])"
    by simp
  moreover have "''x86-4.9'' \<notin> set (names (fs toolchains_world_pruned) [''toolchains''])"
    by (simp add: names_def toolchains_world_pruned_def)
  ultimately show ?thesis using run by simp
qed

section \<open>Downloading twice\<close>

lemma download_when_matching:
  assumes "map_of (fs w) (self_local_path self) = Some (File c)"
    and "sha1_hexdigest e c = self_sha1 self"
  shows "download e self w =
     Inr (say ''File already downloaded: {}'' [APath (self_local_path self)]
            (say ''Calculating hash of {}'' [APath (self_local_path self)] w))"
  using assms
  by (simp add: download_def hash_match_def path_exists_def read_file_def Let_def)

lemma hash_match_True:
  assumes "hash_match e self w = Inr (True, w1)"
  shows "\<exists>c. map_of (fs w1) (self_local_path self) = Some (File c) \<and>
             sha1_hexdigest e c = self_sha1 self"
  using assms
  by (auto simp: hash_match_def path_exists_def read_file_def Let_def raise_def
      split: if_splits option.splits node.splits)

lemma download_leaves_match:
  assumes "download e self w = Inr w1"
  shows "\<exists>c. map_of (fs w1) (self_local_path self) = Some (File c) \<and>
             sha1_hexdigest e c = self_sha1 self"
proof (cases "hash_match e self w")
  case (Inl z)
  with assms show ?thesis by (simp add: download_def)
next
  case (Inr z)
  obtain ok w0 where z: "z = (ok, w0)" by (cases z)
  show ?thesis
  proof (cases ok)
    case True
    with Inr z hash_match_True [of e self w w0] assms show ?thesis
      by (auto simp: download_def)
  next
    case False
    with Inr z assms obtain w2 w3 where "hash_match e self w2 = Inr (True, w3)" and "w1 = w3"
      by (auto simp: download_def raise_def split: sum.splits if_splits)
    with hash_match_True [of e self w2 w3] show ?thesis by simp
  qed
qed

text \<open>
  C8. When the local file exists and its SHA-1 is the expected one, \<open>download\<close> returns
  without a request to the network and with the file system as it was. A \<open>download\<close> that
  has returned leaves such a file, so a second call after it changes neither the file
  system nor the log of requests; it only prints.
\<close>

theorem download_idempotent:
  "(map_of (fs w) (self_local_path self) = Some (File c) \<and> sha1_hexdigest e c = self_sha1 self \<longrightarrow>
      (\<exists>w'. download e self w = Inr w' \<and> fs w' = fs w \<and>
            requests w' = requests w \<and> responses w' = responses w)) \<and>
   (download e self w = Inr w1 \<longrightarrow>
      (\<exists>w2. download e self w1 = Inr w2 \<and> fs w2 = fs w1 \<and>
            requests w2 = requests w1 \<and> responses w2 = responses w1))"
proof (intro conjI impI)
  assume "map_of (fs w) (self_local_path self) = Some (File c) \<and> sha1_hexdigest e c = self_sha1 self"
  then show "\<exists>w'. download e self w = Inr w' \<and> fs w' = fs w \<and>
            requests w' = requests w \<and> responses w' = responses w"
    by (simp add: download_when_matching)
next
  assume "download e self w = Inr w1"
  then obtain c1 where "map_of (fs w1) (self_local_path self) = Some (File c1)"
    and "sha1_hexdigest e c1 = self_sha1 self"
    using download_leaves_match by blast
  then show "\<exists>w2. download e self w1 = Inr w2 \<and> fs w2 = fs w1 \<and>
            requests w2 = requests w1 \<and> responses w2 = responses w1"
    by (simp add: download_when_matching)
qed

lemma range_3: "[0..<3] = [0, 1, 2]"
  by (simp add: numeral_3_eq_3)

lemmas fetch_simps =
  download_def hash_match_def real_file_download_def real_file_download_once_def
  read_file_def write_file_def path_exists_def say_def sys_exit_def raise_def Let_def
  range_3

theorem download_idempotent_witness:
  "fs (world_of (download cache_host cache_file cache_world)) =
     [([''_downloads''], Dir), ([''_downloads'', ''ndk.zip''], File ''NDK'')] \<and>
   requests (world_of (download cache_host cache_file cache_world)) =
     [''http://host/ndk.zip'', ''http://host/ndk.zip''] \<and>
   (\<exists>w2. download cache_host cache_file (world_of (download cache_host cache_file cache_world)) = Inr w2 \<and>
      fs w2 = [([''_downloads''], Dir), ([''_downloads'', ''ndk.zip''], File ''NDK'')] \<and>
      requests w2 = [''http://host/ndk.zip'', ''http://host/ndk.zip''])"
proof -
  have run: "download cache_host cache_file cache_world =
     Inr (world_of (download cache_host cache_file cache_world))"
    by (simp add: fetch_simps world_of_def cache_host_def cache_file_def cache_world_def)
  have f: "fs (world_of (download cache_host cache_file cache_world)) =
     [([''_downloads''], Dir), ([''_downloads'', ''ndk.zip''], File ''NDK'')]"
    by (simp add: fetch_simps world_of_def cache_host_def cache_file_def cache_world_def)
  have r: "requests (world_of (download cache_host cache_file cache_world)) =
     [''http://host/ndk.zip'', ''http://host/ndk.zip'']"
    by (simp add: fetch_simps world_of_def cache_host_def cache_file_def cache_world_def)
  from download_idempotent [of cache_world cache_file _ cache_host
      "world_of (download cache_host cache_file cache_world)"] run
  have "\<exists>w2. download cache_host cache_file (world_of (download cache_host cache_file cache_world)) = Inr w2 \<and>
      fs w2 = fs (world_of (download cache_host cache_file cache_world)) \<and>
      requests w2 = requests (world_of (download cache_host cache_file cache_world)) \<and>
      responses w2 = responses (world_of (download cache_host cache_file cache_world))"
    by blast
  with f r show ?thesis by auto
qed

section \<open>Sizes are printed in binary units\<close>

lemma hundredths_fraction:
  assumes "0 < d"
  shows "hundredths (of_nat n / of_nat d) =
     (let q = n * 100 div d; r = n * 100 mod d in
      if 2 * r < d then q else if d < 2 * r then q + 1 else if even q then q else q + 1)"
proof -
  have x: "(of_nat n / of_nat d :: rat) * 100 = of_nat (n * 100) / of_nat d" by simp
  have fl: "\<lfloor>(of_nat n / of_nat d :: rat) * 100\<rfloor> = int (n * 100 div d)"
    unfolding x by (simp only: floor_divide_of_nat_eq)
  define q where "q = n * 100 div d"
  define r where "r = n * 100 mod d"
  have "n * 100 = d * q + r"
    by (simp add: q_def r_def)
  then have "(of_nat (n * 100) :: rat) = of_nat d * of_nat q + of_nat r"
    by (metis of_nat_add of_nat_mult)
  then have "(of_nat (n * 100) :: rat) / of_nat d - of_nat q = of_nat r / of_nat d"
    using assms by (simp add: field_simps)
  then have fr: "(of_nat n / of_nat d :: rat) * 100 - of_int (int (n * 100 div d)) = of_nat (n * 100 mod d) / of_nat d"
    unfolding x by (simp add: q_def r_def)
  have lt: "(of_nat (n * 100 mod d) / of_nat d :: rat) < 1 / 2 \<longleftrightarrow> 2 * (n * 100 mod d) < d"
    using assms
    by (simp add: field_simps) (metis (no_types) of_nat_less_iff of_nat_mult of_nat_numeral mult.commute)
  have gt: "1 / 2 < (of_nat (n * 100 mod d) / of_nat d :: rat) \<longleftrightarrow> d < 2 * (n * 100 mod d)"
    using assms
    by (simp add: field_simps) (metis (no_types) of_nat_less_iff of_nat_mult of_nat_numeral mult.commute)
  show ?thesis
    unfolding hundredths_def Let_def fl fr lt gt
    by (simp add: nat_add_distrib)
qed

lemma hundredths_whole: "hundredths (of_nat n) = n * 100"
  using hundredths_fraction [of 1 n] by simp

lemma hundredths_nearest:
  assumes "0 \<le> x"
  shows "\<bar>of_nat (hundredths x) - 100 * x\<bar> \<le> 1 / 2"
    and "\<bar>of_nat (hundredths x) - 100 * x\<bar> = 1 / 2 \<Longrightarrow> even (hundredths x)"
proof -
  define h where "h = \<lfloor>x * 100\<rfloor>"
  define r where "r = x * 100 - of_int h"
  have h0: "0 \<le> h" using assms by (simp add: h_def)
  have r0: "0 \<le> r" and r1: "r < 1"
    unfolding r_def h_def by linarith+
  have x: "100 * x = of_int h + r" by (simp add: r_def)
  have hn: "(of_nat (nat h) :: rat) = of_int h" using h0 by simp
  have hn1: "(of_nat (nat (h + 1)) :: rat) = of_int h + 1" using h0 by simp
  have hd: "hundredths x = nat (if r < 1 / 2 then h else if 1 / 2 < r then h + 1 else if even h then h else h + 1)"
    by (simp add: hundredths_def Let_def h_def r_def)
  show "\<bar>of_nat (hundredths x) - 100 * x\<bar> \<le> 1 / 2"
    unfolding hd x using r0 r1 hn hn1 by (auto simp: abs_if)
  show "even (hundredths x)" if "\<bar>of_nat (hundredths x) - 100 * x\<bar> = 1 / 2"
  proof -
    have "r = 1 / 2"
      using that unfolding hd x using r0 r1 hn hn1 by (auto simp: abs_if split: if_splits)
    then show ?thesis
      unfolding hd using h0 by (auto simp: even_nat_iff)
  qed
qed

lemma dropped_bits_small: "n < 2 ^ 53 \<Longrightarrow> dropped_bits n = 0"
  by (simp add: dropped_bits.simps)

lemma nearest_double_small: "n < 2 ^ 53 \<Longrightarrow> nearest_double n = n"
  by (simp add: nearest_double_def dropped_bits_small)

lemma dropped_bits_mantissa: "n div 2 ^ dropped_bits n < 2 ^ 53"
proof (induction n rule: dropped_bits.induct)
  case (1 n)
  show ?case
  proof (cases "n < 2 ^ 53")
    case True
    then show ?thesis by (simp add: dropped_bits_small)
  next
    case False
    then have s: "dropped_bits n = Suc (dropped_bits (n div 2))"
      by (subst dropped_bits.simps) simp
    have "n div 2 ^ Suc (dropped_bits (n div 2)) = (n div 2) div 2 ^ dropped_bits (n div 2)"
      by (simp add: div_mult2_eq)
    with 1 False s show ?thesis by simp
  qed
qed

lemma nearest_double_near:
  "2 * (nearest_double n - n) \<le> 2 ^ dropped_bits n"
  "2 * (n - nearest_double n) \<le> 2 ^ dropped_bits n"
  "2 ^ dropped_bits n dvd nearest_double n"
proof -
  define P where "P = (2 :: nat) ^ dropped_bits n"
  define q where "q = n div P"
  define r where "r = n mod P"
  define A where "A = q * P"
  have P0: "0 < P" by (simp add: P_def)
  have n: "n = A + r" by (simp add: A_def q_def r_def)
  have r: "r < P" using P0 by (simp add: r_def)
  have nd: "nearest_double n = (if 2 * r < P then A else if P < 2 * r then A + P else if even q then A else A + P)"
    by (simp add: nearest_double_def Let_def P_def [symmetric] q_def [symmetric] r_def [symmetric] A_def)
  have "2 * (nearest_double n - n) \<le> P" "2 * (n - nearest_double n) \<le> P" "P dvd nearest_double n"
    using nd n r by (auto simp: A_def)
  then show "2 * (nearest_double n - n) \<le> 2 ^ dropped_bits n"
    "2 * (n - nearest_double n) \<le> 2 ^ dropped_bits n"
    "2 ^ dropped_bits n dvd nearest_double n"
    by (simp_all add: P_def)
qed

lemma true_div_small:
  assumes "a < 2 ^ 53" and "0 < b"
  shows "true_div a b = Inr (of_nat a / of_nat b)"
proof -
  have "(2 :: nat) ^ 53 \<le> 2 ^ 1024" by (rule power_increasing) simp_all
  also have "\<dots> \<le> 2 ^ 1024 * b" using assms(2) by simp
  finally have "a < 2 ^ 1024 * b" using assms(1) by linarith
  then show ?thesis
    using assms by (simp add: true_div_def nearest_double_small)
qed

lemma pow_1054: "(2 :: nat) ^ 1024 * (1024 * (1024 * 1024)) = 2 ^ 1054"
proof -
  have "(1024 :: nat) * (1024 * 1024) = 2 ^ 30" by simp
  then show ?thesis by (simp only: power_add [symmetric]) simp
qed

lemma human_readable_size_cases:
  "human_readable_size n =
     (if n < 1024 then Inr (of_nat n, ''B'')
      else if n < 1024 ^ 2 then Inr (of_nat n / 1024, ''KB'')
      else if n < 1024 ^ 3 then Inr (of_nat n / 1024 ^ 2, ''MB'')
      else if nearest_double n < 2 ^ 1054 then Inr (of_nat (nearest_double n) / 1024 ^ 3, ''GB'')
      else Inl OverflowError)"
proof -
  have kb: "n < 1024 ^ 2 \<Longrightarrow> true_div n 1024 = Inr (of_nat n / 1024)"
    using true_div_small [of n 1024] by simp
  have mb: "n < 1024 ^ 3 \<Longrightarrow> true_div n (1024 * 1024) = Inr (of_nat n / 1024 ^ 2)"
    using true_div_small [of n "1024 * 1024"] by simp
  have gb: "true_div n (1024 * (1024 * 1024)) =
      (if nearest_double n < 2 ^ 1054 then Inr (of_nat (nearest_double n) / 1024 ^ 3) else Inl OverflowError)"
    unfolding true_div_def pow_1054 by (simp add: not_less)
  show ?thesis
    unfolding human_readable_size_def Let_def
    using kb mb gb by (simp add: not_less)
qed

lemma printable_size_cases:
  "printable_size n = Inl x \<longleftrightarrow> human_readable_size n = Inl x"
  "human_readable_size n = Inr (v, u) \<Longrightarrow> printable_size n = Inr (format_2f v @ '' '' @ u)"
  by (auto simp: printable_size_def split: sum.splits)

lemma printable_size_500: "printable_size 500 = Inr ''500.00 B''"
  by (simp add: printable_size_def human_readable_size_cases format_2f_def Let_def
      hundredths_whole [of 500, simplified] digits.simps digit_char_def)

lemma printable_size_2048: "printable_size 2048 = Inr ''2.00 KB''"
  by (simp add: printable_size_def human_readable_size_cases format_2f_def Let_def
      hundredths_fraction [of 1024 2048, simplified] digits.simps digit_char_def)

lemma printable_size_1572864: "printable_size 1572864 = Inr ''1.50 MB''"
  by (simp add: printable_size_def human_readable_size_cases format_2f_def Let_def
      hundredths_fraction [of 1048576 1572864, simplified] digits.simps digit_char_def)

lemma nearest_double_tie: "nearest_double 9007199388958721 = 9007199388958720"
  by (simp add: nearest_double_def dropped_bits.simps Let_def)

lemma human_readable_size_tie:
  "human_readable_size 9007199388958721 = Inr (67108865 / 8, ''GB'')"
  by (simp add: human_readable_size_cases nearest_double_tie)

lemma printable_size_tie: "printable_size 9007199388958721 = Inr ''8388608.12 GB''"
  by (simp add: printable_size_def human_readable_size_tie format_2f_def Let_def
      hundredths_fraction [of 8 67108865, simplified] digits.simps digit_char_def)

lemma dropped_bits_power: "dropped_bits (2 ^ (53 + j)) = Suc j"
proof (induction j)
  case 0
  show ?case by (simp add: dropped_bits.simps)
next
  case (Suc j)
  have "(2 :: nat) ^ 53 \<le> 2 ^ (53 + Suc j)"
    by (rule power_increasing) simp_all
  then have ge: "\<not> (2 :: nat) ^ (53 + Suc j) < 2 ^ 53"
    by (simp only: not_less)
  have "(2 :: nat) ^ (53 + Suc j) = 2 * 2 ^ (53 + j)"
    by (simp only: add_Suc_right power_Suc)
  then have half: "(2 :: nat) ^ (53 + Suc j) div 2 = 2 ^ (53 + j)"
    by (simp only: nonzero_mult_div_cancel_left)
  have "dropped_bits (2 ^ (53 + Suc j)) = Suc (dropped_bits (2 ^ (53 + Suc j) div 2))"
    by (subst dropped_bits.simps) (simp only: ge if_False)
  then show ?case
    by (simp only: half Suc)
qed

lemma nearest_double_power: "nearest_double (2 ^ (53 + j)) = 2 ^ (53 + j)"
proof -
  define P :: nat where "P = 2 ^ Suc j"
  define N :: nat where "N = 2 ^ (53 + j)"
  have P0: "0 < P" by (simp add: P_def)
  have n: "N = 2 ^ 52 * P"
    unfolding N_def P_def by (simp only: power_add [symmetric]) simp
  have d: "N div P = 2 ^ 52" using P0 by (simp only: n) simp
  have m: "N mod P = 0" by (simp only: n) simp
  have "nearest_double N =
      (if 2 * (N mod P) < P then N div P else if P < 2 * (N mod P) then N div P + 1
       else if even (N div P) then N div P else N div P + 1) * P"
    unfolding nearest_double_def Let_def N_def dropped_bits_power P_def ..
  also have "\<dots> = 2 ^ 52 * P"
    using P0 by (simp only: d m mult_0_right if_True)
  finally show ?thesis
    by (simp only: n [symmetric]) (simp only: N_def)
qed

lemma human_readable_size_overflow: "human_readable_size (2 ^ 1054) = Inl OverflowError"
proof -
  have n: "nearest_double (2 ^ 1054) = 2 ^ 1054"
    using nearest_double_power [of 1001] by simp
  have "(1024 :: nat) ^ 3 = 2 ^ 30" by simp
  also have "\<dots> \<le> 2 ^ 1054" by (rule power_increasing) simp_all
  finally have "\<not> (2 :: nat) ^ 1054 < 1024 ^ 3" by simp
  moreover from this have "\<not> (2 :: nat) ^ 1054 < 1024 ^ 2" "\<not> (2 :: nat) ^ 1054 < 1024"
    by simp_all
  ultimately show ?thesis
    by (simp only: human_readable_size_cases n if_False less_irrefl)
qed

text \<open>
  C6, as the code has it. The unit of a size is \<^verbatim>\<open>B\<close> below 1024, \<^verbatim>\<open>KB\<close> below \<open>1024\<^sup>2\<close>,
  \<^verbatim>\<open>MB\<close> below \<open>1024\<^sup>3\<close> and \<^verbatim>\<open>GB\<close> from there on, as long as the quotient fits a float:
  once the nearest double of the size reaches \<open>2 ^ 1054\<close> the division \<^verbatim>\<open>size / gb\<close> raises
  \<^verbatim>\<open>OverflowError\<close> and nothing is rendered. The number is the size itself (\<^verbatim>\<open>B\<close>) or the
  float quotient. That is the exact quotient for every size below \<open>2 ^ 53\<close>; beyond, it is
  the quotient of the nearest double of the size, which keeps 53 bits of it, is a multiple
  of the lowest bit kept and differs from the size by at most half of that bit. The text
  printed is the number rounded to the nearest hundredth, a tie going to the even one:
  the digits of the whole part, a point, two decimals, a blank and the unit. 500 bytes
  print as \<^verbatim>\<open>500.00 B\<close>, 2048 as \<^verbatim>\<open>2.00 KB\<close>, 1572864 as \<^verbatim>\<open>1.50 MB\<close>, and 9007199388958721
  bytes, whose float quotient is 8388608.125, as \<^verbatim>\<open>8388608.12 GB\<close>.
\<close>

theorem printable_size_units:
  "human_readable_size n =
     (if n < 1024 then Inr (of_nat n, ''B'')
      else if n < 1024 ^ 2 then Inr (of_nat n / 1024, ''KB'')
      else if n < 1024 ^ 3 then Inr (of_nat n / 1024 ^ 2, ''MB'')
      else if nearest_double n < 2 ^ 1054 then Inr (of_nat (nearest_double n) / 1024 ^ 3, ''GB'')
      else Inl OverflowError) \<and>
   (n < 2 ^ 53 \<longrightarrow> nearest_double n = n) \<and>
   n div 2 ^ dropped_bits n < 2 ^ 53 \<and>
   2 ^ dropped_bits n dvd nearest_double n \<and>
   2 * (nearest_double n - n) \<le> 2 ^ dropped_bits n \<and>
   2 * (n - nearest_double n) \<le> 2 ^ dropped_bits n \<and>
   (human_readable_size n = Inr (v, u) \<longrightarrow>
      (\<exists>h. printable_size n =
              Inr (digits (h div 100) @ ''.'' @ [digit_char (h mod 100 div 10), digit_char (h mod 10)] @
                   '' '' @ u) \<and>
           \<bar>of_nat h - 100 * v\<bar> \<le> 1 / 2 \<and>
           (\<bar>of_nat h - 100 * v\<bar> = 1 / 2 \<longrightarrow> even h))) \<and>
   (printable_size n = Inl x \<longleftrightarrow> human_readable_size n = Inl x) \<and>
   printable_size 500 = Inr ''500.00 B'' \<and>
   printable_size 2048 = Inr ''2.00 KB'' \<and>
   printable_size 1572864 = Inr ''1.50 MB'' \<and>
   printable_size 9007199388958721 = Inr ''8388608.12 GB''"
proof -
  have fmt: "\<exists>h. printable_size n =
              Inr (digits (h div 100) @ ''.'' @ [digit_char (h mod 100 div 10), digit_char (h mod 10)] @
                   '' '' @ u) \<and>
           \<bar>of_nat h - 100 * v\<bar> \<le> 1 / 2 \<and>
           (\<bar>of_nat h - 100 * v\<bar> = 1 / 2 \<longrightarrow> even h)"
    if h: "human_readable_size n = Inr (v, u)"
  proof -
    have "0 \<le> v"
      using h unfolding human_readable_size_cases by (auto split: if_splits)
    then have "\<bar>of_nat (hundredths v) - 100 * v\<bar> \<le> 1 / 2"
      and "\<bar>of_nat (hundredths v) - 100 * v\<bar> = 1 / 2 \<longrightarrow> even (hundredths v)"
      using hundredths_nearest [of v] by blast+
    moreover have "printable_size n =
        Inr (digits (hundredths v div 100) @ ''.'' @
             [digit_char (hundredths v mod 100 div 10), digit_char (hundredths v mod 10)] @ '' '' @ u)"
      using printable_size_cases(2) [OF h] by (simp add: format_2f_def Let_def)
    ultimately show ?thesis by blast
  qed
  show ?thesis
    using human_readable_size_cases [of n] nearest_double_small [of n] dropped_bits_mantissa [of n]
      nearest_double_near [of n] fmt printable_size_cases(1) [of n x]
      printable_size_500 printable_size_2048 printable_size_1572864 printable_size_tie
    by (intro conjI impI) assumption+
qed

theorem printable_size_units_witness:
  "human_readable_size 1572864 = Inr (3 / 2, ''MB'') \<and>
   nearest_double 1572864 = 1572864 \<and>
   (\<exists>h. printable_size 1572864 =
           Inr (digits (h div 100) @ ''.'' @ [digit_char (h mod 100 div 10), digit_char (h mod 10)] @ '' MB'') \<and>
        \<bar>of_nat h - 100 * (3 / 2 :: rat)\<bar> \<le> 1 / 2) \<and>
   human_readable_size 9007199388958721 = Inr (67108865 / 8, ''GB'') \<and>
   (\<exists>h. printable_size 9007199388958721 =
           Inr (digits (h div 100) @ ''.'' @ [digit_char (h mod 100 div 10), digit_char (h mod 10)] @ '' GB'') \<and>
        \<bar>of_nat h - 100 * (67108865 / 8 :: rat)\<bar> = 1 / 2 \<and> even h)"
proof -
  have a: "human_readable_size 1572864 = Inr (3 / 2, ''MB'')"
    by (simp add: human_readable_size_cases)
  have b: "(1572864 :: nat) < 2 ^ 53" by simp
  have c: "\<bar>of_nat h - 100 * (67108865 / 8 :: rat)\<bar> = 1 / 2"
    if "\<bar>of_nat h - 100 * (67108865 / 8 :: rat)\<bar> \<le> 1 / 2" for h :: nat
  proof -
    have lo: "(838860812 :: rat) \<le> of_nat h" and hi: "(of_nat h :: rat) \<le> 838860813"
      using that by linarith+
    have "(of_nat 838860812 :: rat) \<le> of_nat h" using lo by simp
    then have "838860812 \<le> h" by (simp only: of_nat_le_iff)
    moreover have "(of_nat h :: rat) \<le> of_nat 838860813" using hi by simp
    then have "h \<le> 838860813" by (simp only: of_nat_le_iff)
    ultimately
    have "h = 838860812 \<or> h = 838860813" by linarith
    then show ?thesis by auto
  qed
  note t1 = printable_size_units [of 1572864 "3 / 2" "''MB''"]
  note t2 = printable_size_units [of 9007199388958721 "67108865 / 8" "''GB''"]
  have n1: "nearest_double 1572864 = 1572864"
    using t1 [THEN conjunct2, THEN conjunct1] b by (rule mp)
  have p1: "\<exists>h. printable_size 1572864 =
           Inr (digits (h div 100) @ ''.'' @ [digit_char (h mod 100 div 10), digit_char (h mod 10)] @ '' MB'') \<and>
        \<bar>of_nat h - 100 * (3 / 2 :: rat)\<bar> \<le> 1 / 2"
  proof -
    from t1 [THEN conjunct2, THEN conjunct2, THEN conjunct2, THEN conjunct2, THEN conjunct2,
        THEN conjunct2, THEN conjunct1] a
    obtain h where "printable_size 1572864 =
           Inr (digits (h div 100) @ ''.'' @ [digit_char (h mod 100 div 10), digit_char (h mod 10)] @ '' '' @ ''MB'')"
      and "\<bar>of_nat h - 100 * (3 / 2 :: rat)\<bar> \<le> 1 / 2"
      by blast
    then show ?thesis by auto
  qed
  have p2: "\<exists>h. printable_size 9007199388958721 =
           Inr (digits (h div 100) @ ''.'' @ [digit_char (h mod 100 div 10), digit_char (h mod 10)] @ '' GB'') \<and>
        \<bar>of_nat h - 100 * (67108865 / 8 :: rat)\<bar> = 1 / 2 \<and> even h"
  proof -
    from t2 [THEN conjunct2, THEN conjunct2, THEN conjunct2, THEN conjunct2, THEN conjunct2,
        THEN conjunct2, THEN conjunct1] human_readable_size_tie
    obtain h where h: "printable_size 9007199388958721 =
           Inr (digits (h div 100) @ ''.'' @ [digit_char (h mod 100 div 10), digit_char (h mod 10)] @ '' '' @ ''GB'')"
      and le: "\<bar>of_nat h - 100 * (67108865 / 8 :: rat)\<bar> \<le> 1 / 2"
      and ev: "\<bar>of_nat h - 100 * (67108865 / 8 :: rat)\<bar> = 1 / 2 \<longrightarrow> even h"
      by blast
    from c [OF le] ev have "\<bar>of_nat h - 100 * (67108865 / 8 :: rat)\<bar> = 1 / 2" "even h"
      by blast+
    with h show ?thesis by auto
  qed
  from a n1 p1 human_readable_size_tie p2 show ?thesis
    by (intro conjI)
qed

theorem printable_size_units_counterexample:
  "(1024 :: nat) ^ 3 \<le> 2 ^ 1054 \<and>
   human_readable_size (2 ^ 1054) = Inl OverflowError \<and>
   printable_size (2 ^ 1054) = Inl OverflowError"
proof -
  have "(1024 :: nat) ^ 3 = 2 ^ 30" by simp
  also have "\<dots> \<le> 2 ^ 1054" by (rule power_increasing) simp_all
  finally show ?thesis
    using human_readable_size_overflow by (simp add: printable_size_def)
qed

section \<open>A selected directory that does not exist\<close>

lemma select_toolchain_listing:
  assumes "listdir (fs w) (android_toolchains_dir e a) = Inr l"
  shows "select_toolchain e a t w =
     (let tc = toolchain (arg_compiler_version a) t;
          w1 = (if os_path_exists (fs w) (os_path_join (android_toolchains_dir e a) tc) then w
                else say ''Toolchain not exists: {} (set by --toolchain)''
                       [APath (os_path_join (android_toolchains_dir e a) tc)] w)
      in if tc \<in> set l then Inr ((tc, l), w1)
         else Inl (SysExit ''Toolchain `{}` is not in list: {}'' [AStr tc, AStrs l], w1))"
  using assms
  by (simp add: select_toolchain_def os_listdir_def sys_exit_def say_def Let_def)

lemma select_stl_listing:
  assumes "stl_suffix_by_name s w = Inr sfx"
    and "listdir (fs w) (android_stl_dir e a) = Inr l"
  shows "select_stl e a s w =
     (let w1 = (if os_path_exists (fs w) (os_path_join (android_stl_dir e a) sfx) then w
                else say ''STL not exists: {} (set by --stl)''
                       [APath (os_path_join (android_stl_dir e a) sfx)] w)
      in if sfx \<in> set l then Inr ((sfx, l), w1)
         else Inl (SysExit ''STL `{}` is not in list: {}'' [AStr sfx, AStrs l], w1))"
  using assms
  by (simp add: select_stl_def os_listdir_def sys_exit_def say_def Let_def)

text \<open>
  C7, as the code has it. For the toolchain and the standard library the existence check
  never ends the run: when the selected directory does not exist it prints its warning,
  and in either case the run goes on to the listing of the parent directory. With that
  listing at hand the listing check alone decides: a selection that is not listed ends
  the run with \<^verbatim>\<open>is not in list\<close>, a listed one lets it go on; the world is the world before,
  with the warning added exactly when the directory did not exist. In the other four
  dimensions (compiler version, ABI, API level, architecture) the existence check itself
  ends the run when the selected directory does not exist, with \<^verbatim>\<open>Directory not exists\<close>
  or \<^verbatim>\<open>Directory not found\<close>, and nothing is printed.
\<close>

theorem missing_directory:
  "(listdir (fs w) (android_toolchains_dir e a) = Inr tlist \<longrightarrow>
      select_toolchain e a t w =
        (if toolchain (arg_compiler_version a) t \<in> set tlist
         then Inr ((toolchain (arg_compiler_version a) t, tlist),
                   if os_path_exists (fs w)
                        (os_path_join (android_toolchains_dir e a) (toolchain (arg_compiler_version a) t))
                   then w
                   else say ''Toolchain not exists: {} (set by --toolchain)''
                          [APath (os_path_join (android_toolchains_dir e a)
                                    (toolchain (arg_compiler_version a) t))] w)
         else Inl (SysExit ''Toolchain `{}` is not in list: {}''
                     [AStr (toolchain (arg_compiler_version a) t), AStrs tlist],
                   if os_path_exists (fs w)
                        (os_path_join (android_toolchains_dir e a) (toolchain (arg_compiler_version a) t))
                   then w
                   else say ''Toolchain not exists: {} (set by --toolchain)''
                          [APath (os_path_join (android_toolchains_dir e a)
                                    (toolchain (arg_compiler_version a) t))] w))) \<and>
   (stl_suffix_by_name s w = Inr sfx \<and> listdir (fs w) (android_stl_dir e a) = Inr slist \<longrightarrow>
      select_stl e a s w =
        (if sfx \<in> set slist
         then Inr ((sfx, slist),
                   if os_path_exists (fs w) (os_path_join (android_stl_dir e a) sfx) then w
                   else say ''STL not exists: {} (set by --stl)''
                          [APath (os_path_join (android_stl_dir e a) sfx)] w)
         else Inl (SysExit ''STL `{}` is not in list: {}'' [AStr sfx, AStrs slist],
                   if os_path_exists (fs w) (os_path_join (android_stl_dir e a) sfx) then w
                   else say ''STL not exists: {} (set by --stl)''
                          [APath (os_path_join (android_stl_dir e a) sfx)] w))) \<and>
   (truthy (arg_compiler_version a) = Some g \<and> \<not> os_path_exists (fs w) (os_path_join stl_dir g) \<longrightarrow>
      select_compiler_version a stl_dir w =
        Inl (SysExit ''Directory not exists: {} (--compiler-version)'' [APath (os_path_join stl_dir g)], w)) \<and>
   (truthy (arg_abi_name a) = Some b \<and>
    \<not> os_path_exists (fs w) (os_path_join (gcc_version_dir @ [''libs'']) b) \<longrightarrow>
      select_abi a gcc_version_dir w =
        Inl (SysExit ''Directory not exists: {} (--abi-name)''
               [APath (os_path_join (gcc_version_dir @ [''libs'']) b)], w)) \<and>
   (\<not> os_path_exists (fs w) (os_path_join platforms_dir (''android-'' @ l)) \<longrightarrow>
      select_api platforms_dir l w =
        Inl (SysExit ''Directory not found: {} (--api-level)''
               [APath (os_path_join platforms_dir (''android-'' @ l))], w)) \<and>
   (\<not> os_path_exists (fs w) (os_path_join android_api_dir (''arch-'' @ r)) \<longrightarrow>
      select_arch android_api_dir r w =
        Inl (SysExit ''Directory not found: {} (--arch-name)''
               [APath (os_path_join android_api_dir (''arch-'' @ r))], w))"
proof (intro conjI impI)
  assume "listdir (fs w) (android_toolchains_dir e a) = Inr tlist"
  from select_toolchain_listing [OF this, of t]
  show "select_toolchain e a t w =
        (if toolchain (arg_compiler_version a) t \<in> set tlist
         then Inr ((toolchain (arg_compiler_version a) t, tlist),
                   if os_path_exists (fs w)
                        (os_path_join (android_toolchains_dir e a) (toolchain (arg_compiler_version a) t))
                   then w
                   else say ''Toolchain not exists: {} (set by --toolchain)''
                          [APath (os_path_join (android_toolchains_dir e a)
                                    (toolchain (arg_compiler_version a) t))] w)
         else Inl (SysExit ''Toolchain `{}` is not in list: {}''
                     [AStr (toolchain (arg_compiler_version a) t), AStrs tlist],
                   if os_path_exists (fs w)
                        (os_path_join (android_toolchains_dir e a) (toolchain (arg_compiler_version a) t))
                   then w
                   else say ''Toolchain not exists: {} (set by --toolchain)''
                          [APath (os_path_join (android_toolchains_dir e a)
                                    (toolchain (arg_compiler_version a) t))] w))"
    by (simp add: Let_def)
next
  assume "stl_suffix_by_name s w = Inr sfx \<and> listdir (fs w) (android_stl_dir e a) = Inr slist"
  then have "stl_suffix_by_name s w = Inr sfx" "listdir (fs w) (android_stl_dir e a) = Inr slist"
    by simp_all
  from select_stl_listing [OF this]
  show "select_stl e a s w =
        (if sfx \<in> set slist
         then Inr ((sfx, slist),
                   if os_path_exists (fs w) (os_path_join (android_stl_dir e a) sfx) then w
                   else say ''STL not exists: {} (set by --stl)''
                          [APath (os_path_join (android_stl_dir e a) sfx)] w)
         else Inl (SysExit ''STL `{}` is not in list: {}'' [AStr sfx, AStrs slist],
                   if os_path_exists (fs w) (os_path_join (android_stl_dir e a) sfx) then w
                   else say ''STL not exists: {} (set by --stl)''
                          [APath (os_path_join (android_stl_dir e a) sfx)] w))"
    by (simp add: Let_def)
next
  assume "truthy (arg_compiler_version a) = Some g \<and> \<not> os_path_exists (fs w) (os_path_join stl_dir g)"
  then show "select_compiler_version a stl_dir w =
        Inl (SysExit ''Directory not exists: {} (--compiler-version)'' [APath (os_path_join stl_dir g)], w)"
    by (simp add: select_compiler_version_def sys_exit_def Let_def)
next
  assume "truthy (arg_abi_name a) = Some b \<and>
    \<not> os_path_exists (fs w) (os_path_join (gcc_version_dir @ [''libs'']) b)"
  then show "select_abi a gcc_version_dir w =
        Inl (SysExit ''Directory not exists: {} (--abi-name)''
               [APath (os_path_join (gcc_version_dir @ [''libs'']) b)], w)"
    by (simp add: select_abi_def sys_exit_def Let_def)
next
  assume "\<not> os_path_exists (fs w) (os_path_join platforms_dir (''android-'' @ l))"
  then show "select_api platforms_dir l w =
        Inl (SysExit ''Directory not found: {} (--api-level)''
               [APath (os_path_join platforms_dir (''android-'' @ l))], w)"
    by (simp add: select_api_def sys_exit_def Let_def)
next
  assume "\<not> os_path_exists (fs w) (os_path_join android_api_dir (''arch-'' @ r))"
  then show "select_arch android_api_dir r w =
        Inl (SysExit ''Directory not found: {} (--arch-name)''
               [APath (os_path_join android_api_dir (''arch-'' @ r))], w)"
    by (simp add: select_arch_def sys_exit_def Let_def)
qed



lemma kit_exists:
  assumes "isdir f [''work'']" and "isdir f [''work'', ''_unpacked'']"
  shows "os_path_exists f (kit @ cs) =
     (case resolve f kit cs of None \<Rightarrow> False | Some q \<Rightarrow> q = [] \<or> path_exists f q)"
  using assms by (simp add: os_path_exists_def kit_def is_directory_def)

lemma kit_dirs:
  "android_toolchains_dir kit_host gnu_args = kit @ [''toolchains'']"
  "android_stl_dir kit_host gnu_args = kit @ [''sources'', ''cxx-stl'']"
  "android_platforms_dir kit_host gnu_args = kit @ [''platforms'']"
  by (simp_all add: dir_simps kit_host_def gnu_args_def kit_def)

lemma unpacked_listings:
  "listdir (fs unpacked_world) (kit @ [''toolchains'']) =
     Inr [''arm-linux-androideabi-4.9'', ''llvm'', ''x86-4.9'']"
  "listdir (fs unpacked_world) (kit @ [''sources'', ''cxx-stl'']) =
     Inr [''gnu-libstdc++'', ''llvm-libc++'', ''llvm-libc++abi'']"
  "listdir (fs unpacked_world) (kit @ [''platforms'']) = Inr [''android-9'', ''android-21'']"
  by (simp_all add: listdir_def names_def unpacked_world_def part_simps kit_simps)

lemma unpacked_joins:
  "os_path_join (kit @ [''toolchains'']) ''mips-4.9'' = kit @ [''toolchains'', ''mips-4.9'']"
  "os_path_join (kit @ [''toolchains'']) ''x86-4.9/'' = kit @ [''toolchains'', ''x86-4.9'', []]"
  "os_path_join (kit @ [''toolchains'']) ''x86-4.9'' = kit @ [''toolchains'', ''x86-4.9'']"
  "os_path_join (kit @ [''sources'', ''cxx-stl'']) ''stlport'' = kit @ [''sources'', ''cxx-stl'', ''stlport'']"
  "os_path_join (kit @ [''sources'', ''cxx-stl'', ''llvm-libc++'']) ''4.9'' =
     kit @ [''sources'', ''cxx-stl'', ''llvm-libc++'', ''4.9'']"
  "os_path_join (kit @ [''sources'', ''cxx-stl'', ''gnu-libstdc++'', ''4.8''] @ [''libs'']) ''armeabi'' =
     kit @ [''sources'', ''cxx-stl'', ''gnu-libstdc++'', ''4.8'', ''libs'', ''armeabi'']"
  "os_path_join (kit @ [''platforms'']) (''android-'' @ ''8'') = kit @ [''platforms'', ''android-8'']"
  "os_path_join (kit @ [''platforms'']) (''android-'' @ ''9/arch-arm'') =
     kit @ [''platforms'', ''android-9'', ''arch-arm'']"
  "os_path_join (kit @ [''platforms'', ''android-21'']) (''arch-'' @ ''arm'') =
     kit @ [''platforms'', ''android-21'', ''arch-arm'']"
  by (simp_all add: os_path_join_def)

lemmas exists_simps =
  kit_exists is_directory_def isdir_def path_exists_def unpacked_world_def part_simps kit_simps

lemma unpacked_missing:
  "\<not> os_path_exists (fs unpacked_world) (kit @ [''toolchains'', ''mips-4.9''])"
  "\<not> os_path_exists (fs unpacked_world) (kit @ [''sources'', ''cxx-stl'', ''stlport''])"
  "\<not> os_path_exists (fs unpacked_world) (kit @ [''sources'', ''cxx-stl'', ''llvm-libc++'', ''4.9''])"
  "\<not> os_path_exists (fs unpacked_world)
       (kit @ [''sources'', ''cxx-stl'', ''gnu-libstdc++'', ''4.8'', ''libs'', ''armeabi''])"
  "\<not> os_path_exists (fs unpacked_world) (kit @ [''platforms'', ''android-8''])"
  "\<not> os_path_exists (fs unpacked_world) (kit @ [''platforms'', ''android-21'', ''arch-arm''])"
  by (simp_all add: exists_simps)

lemma unpacked_present:
  "os_path_exists (fs unpacked_world) (kit @ [''toolchains'', ''x86-4.9'', []])"
  "os_path_exists (fs unpacked_world) (kit @ [''toolchains'', ''x86-4.9''])"
  "os_path_exists (fs unpacked_world) (kit @ [''platforms'', ''android-9'', ''arch-arm''])"
  by (simp_all add: exists_simps)


lemma gnu_flags:
  "arg_compiler_version gnu_args = Some ''4.9''"
  "arg_abi_name gnu_args = Some ''armeabi''"
  by (simp_all add: gnu_args_def)

lemma toolchain_verbatim: "toolchain (Some ''4.9'') t = t"
  by (simp add: toolchain_def)

theorem missing_directory_witness:
  "\<not> os_path_exists (fs unpacked_world) (kit @ [''toolchains'', ''mips-4.9'']) \<and>
   select_toolchain kit_host gnu_args ''mips-4.9'' unpacked_world =
     Inl (SysExit ''Toolchain `{}` is not in list: {}''
            [AStr ''mips-4.9'', AStrs [''arm-linux-androideabi-4.9'', ''llvm'', ''x86-4.9'']],
          say ''Toolchain not exists: {} (set by --toolchain)''
            [APath (kit @ [''toolchains'', ''mips-4.9''])] unpacked_world) \<and>
   os_path_exists (fs unpacked_world) (kit @ [''toolchains'', ''x86-4.9'', []]) \<and>
   select_toolchain kit_host gnu_args ''x86-4.9/'' unpacked_world =
     Inl (SysExit ''Toolchain `{}` is not in list: {}''
            [AStr ''x86-4.9/'', AStrs [''arm-linux-androideabi-4.9'', ''llvm'', ''x86-4.9'']],
          unpacked_world) \<and>
   select_toolchain kit_host gnu_args ''x86-4.9'' unpacked_world =
     Inr ((''x86-4.9'', [''arm-linux-androideabi-4.9'', ''llvm'', ''x86-4.9'']), unpacked_world) \<and>
   \<not> os_path_exists (fs unpacked_world) (kit @ [''sources'', ''cxx-stl'', ''stlport'']) \<and>
   select_stl kit_host gnu_args ''stlport_static'' unpacked_world =
     Inl (SysExit ''STL `{}` is not in list: {}''
            [AStr ''stlport'', AStrs [''gnu-libstdc++'', ''llvm-libc++'', ''llvm-libc++abi'']],
          say ''STL not exists: {} (set by --stl)''
            [APath (kit @ [''sources'', ''cxx-stl'', ''stlport''])] unpacked_world) \<and>
   select_compiler_version gnu_args (kit @ [''sources'', ''cxx-stl'', ''llvm-libc++'']) unpacked_world =
     Inl (SysExit ''Directory not exists: {} (--compiler-version)''
            [APath (kit @ [''sources'', ''cxx-stl'', ''llvm-libc++'', ''4.9''])], unpacked_world) \<and>
   select_abi gnu_args (kit @ [''sources'', ''cxx-stl'', ''gnu-libstdc++'', ''4.8'']) unpacked_world =
     Inl (SysExit ''Directory not exists: {} (--abi-name)''
            [APath (kit @ [''sources'', ''cxx-stl'', ''gnu-libstdc++'', ''4.8'', ''libs'', ''armeabi''])],
          unpacked_world) \<and>
   select_api (kit @ [''platforms'']) ''8'' unpacked_world =
     Inl (SysExit ''Directory not found: {} (--api-level)'' [APath (kit @ [''platforms'', ''android-8''])],
          unpacked_world) \<and>
   select_arch (kit @ [''platforms'', ''android-21'']) ''arm'' unpacked_world =
     Inl (SysExit ''Directory not found: {} (--arch-name)''
            [APath (kit @ [''platforms'', ''android-21'', ''arch-arm''])], unpacked_world) \<and>
   os_path_exists (fs unpacked_world) (kit @ [''platforms'', ''android-9'', ''arch-arm'']) \<and>
   select_api (kit @ [''platforms'']) ''9/arch-arm'' unpacked_world =
     Inl (SysExit ''{} not found in {}'' [AStr ''android-9/arch-arm'', AStrs [''android-9'', ''android-21'']],
          unpacked_world)"
proof -
  have s: "stl_suffix_by_name ''stlport_static'' unpacked_world = Inr ''stlport''"
    by (simp add: stl_suffix_by_name_def)
  note m = missing_directory [where w = unpacked_world and e = kit_host and a = gnu_args]
  have t1: "select_toolchain kit_host gnu_args ''mips-4.9'' unpacked_world =
     Inl (SysExit ''Toolchain `{}` is not in list: {}''
            [AStr ''mips-4.9'', AStrs [''arm-linux-androideabi-4.9'', ''llvm'', ''x86-4.9'']],
          say ''Toolchain not exists: {} (set by --toolchain)''
            [APath (kit @ [''toolchains'', ''mips-4.9''])] unpacked_world)"
    using m [where t = "''mips-4.9''" and tlist = "[''arm-linux-androideabi-4.9'', ''llvm'', ''x86-4.9'']",
        THEN conjunct1]
    by (simp add: kit_dirs unpacked_listings gnu_flags toolchain_verbatim unpacked_joins unpacked_missing)
  have t2: "select_toolchain kit_host gnu_args ''x86-4.9/'' unpacked_world =
     Inl (SysExit ''Toolchain `{}` is not in list: {}''
            [AStr ''x86-4.9/'', AStrs [''arm-linux-androideabi-4.9'', ''llvm'', ''x86-4.9'']],
          unpacked_world)"
    using m [where t = "''x86-4.9/''" and tlist = "[''arm-linux-androideabi-4.9'', ''llvm'', ''x86-4.9'']",
        THEN conjunct1]
    by (simp add: kit_dirs unpacked_listings gnu_flags toolchain_verbatim unpacked_joins unpacked_present)
  have t3: "select_toolchain kit_host gnu_args ''x86-4.9'' unpacked_world =
     Inr ((''x86-4.9'', [''arm-linux-androideabi-4.9'', ''llvm'', ''x86-4.9'']), unpacked_world)"
    using m [where t = "''x86-4.9''" and tlist = "[''arm-linux-androideabi-4.9'', ''llvm'', ''x86-4.9'']",
        THEN conjunct1]
    by (simp add: kit_dirs unpacked_listings gnu_flags toolchain_verbatim unpacked_joins unpacked_present)
  have t4: "select_stl kit_host gnu_args ''stlport_static'' unpacked_world =
     Inl (SysExit ''STL `{}` is not in list: {}''
            [AStr ''stlport'', AStrs [''gnu-libstdc++'', ''llvm-libc++'', ''llvm-libc++abi'']],
          say ''STL not exists: {} (set by --stl)''
            [APath (kit @ [''sources'', ''cxx-stl'', ''stlport''])] unpacked_world)"
    using m [where s = "''stlport_static''" and sfx = "''stlport''"
        and slist = "[''gnu-libstdc++'', ''llvm-libc++'', ''llvm-libc++abi'']",
        THEN conjunct2, THEN conjunct1] s
    by (simp add: kit_dirs unpacked_listings unpacked_joins unpacked_missing)
  have t5: "select_compiler_version gnu_args (kit @ [''sources'', ''cxx-stl'', ''llvm-libc++'']) unpacked_world =
     Inl (SysExit ''Directory not exists: {} (--compiler-version)''
            [APath (kit @ [''sources'', ''cxx-stl'', ''llvm-libc++'', ''4.9''])], unpacked_world)"
    using m [where g = "''4.9''" and stl_dir = "kit @ [''sources'', ''cxx-stl'', ''llvm-libc++'']",
        THEN conjunct2, THEN conjunct2, THEN conjunct1]
    by (simp add: gnu_flags truthy_def unpacked_joins unpacked_missing)
  have t6: "select_abi gnu_args (kit @ [''sources'', ''cxx-stl'', ''gnu-libstdc++'', ''4.8'']) unpacked_world =
     Inl (SysExit ''Directory not exists: {} (--abi-name)''
            [APath (kit @ [''sources'', ''cxx-stl'', ''gnu-libstdc++'', ''4.8'', ''libs'', ''armeabi''])],
          unpacked_world)"
    using m [where b = "''armeabi''" and gcc_version_dir = "kit @ [''sources'', ''cxx-stl'', ''gnu-libstdc++'', ''4.8'']",
        THEN conjunct2, THEN conjunct2, THEN conjunct2, THEN conjunct1]
      unpacked_joins(6) unpacked_missing(4)
    by (simp add: gnu_flags truthy_def)
  have t7: "select_api (kit @ [''platforms'']) ''8'' unpacked_world =
     Inl (SysExit ''Directory not found: {} (--api-level)'' [APath (kit @ [''platforms'', ''android-8''])],
          unpacked_world)"
    using m [where platforms_dir = "kit @ [''platforms'']" and l = "''8''",
        THEN conjunct2, THEN conjunct2, THEN conjunct2, THEN conjunct2, THEN conjunct1]
      unpacked_joins(7) unpacked_missing(5)
    by simp
  have t8: "select_arch (kit @ [''platforms'', ''android-21'']) ''arm'' unpacked_world =
     Inl (SysExit ''Directory not found: {} (--arch-name)''
            [APath (kit @ [''platforms'', ''android-21'', ''arch-arm''])], unpacked_world)"
    using m [where android_api_dir = "kit @ [''platforms'', ''android-21'']" and r = "''arm''",
        THEN conjunct2, THEN conjunct2, THEN conjunct2, THEN conjunct2, THEN conjunct2]
      unpacked_joins(9) unpacked_missing(6)
    by simp
  have t9: "select_api (kit @ [''platforms'']) ''9/arch-arm'' unpacked_world =
     Inl (SysExit ''{} not found in {}'' [AStr ''android-9/arch-arm'', AStrs [''android-9'', ''android-21'']],
          unpacked_world)"
    using unpacked_joins(8) unpacked_present(3) unpacked_listings(3)
    by (simp add: select_api_def os_listdir_def sys_exit_def Let_def)
  from unpacked_missing(1) t1 unpacked_present(1) t2 t3 unpacked_missing(2) t4 t5 t6 t7 t8
    unpacked_present(3) t9
  show ?thesis
    by (intro conjI)
qed

theorem missing_directory_counterexample:
  "\<not> os_path_exists (fs unpacked_world) (os_path_join (android_platforms_dir kit_host gnu_args) ''android-8'') \<and>
   select_api (android_platforms_dir kit_host gnu_args) ''8'' unpacked_world =
     Inl (SysExit ''Directory not found: {} (--api-level)''
            [APath [''work'', ''_unpacked'', ''android-ndk-r10e'', ''platforms'', ''android-8'']],
          unpacked_world) \<and>
   stdout unpacked_world = []"
proof -
  have j: "os_path_join (kit @ [''platforms'']) ''android-8'' = kit @ [''platforms'', ''android-8'']"
    using unpacked_joins(7) by simp
  have k: "kit @ [''platforms'', ''android-8''] =
      [''work'', ''_unpacked'', ''android-ndk-r10e'', ''platforms'', ''android-8'']"
    by (simp add: kit_def)
  have "select_api (kit @ [''platforms'']) ''8'' unpacked_world =
     Inl (SysExit ''Directory not found: {} (--api-level)'' [APath (kit @ [''platforms'', ''android-8''])],
          unpacked_world)"
    using j unpacked_missing(5) by (simp add: select_api_def sys_exit_def Let_def)
  moreover have "stdout unpacked_world = []"
    by (simp add: unpacked_world_def)
  ultimately show ?thesis
    using j unpacked_missing(5) by (simp only: kit_dirs k) simp
qed

section \<open>The kit versions of each host\<close>












section \<open>The standard-library table is total on its ten names\<close>

text \<open>
  C4. \<open>stl_suffix_by_name\<close> depends on its argument only: on each of its ten names it
  returns the directory name of the table, in whatever world it is called, and on every
  other name it exits with \<^verbatim>\<open>Unexpected --stl\<close>, naming the argument and leaving the
  world as it was.
\<close>

theorem stl_suffix_by_name_table:
  "stl_suffix_by_name ''system'' w = Inr ''system'' \<and>
   stl_suffix_by_name ''system_re'' w = Inr ''system'' \<and>
   stl_suffix_by_name ''gabi++_shared'' w = Inr ''gabi++'' \<and>
   stl_suffix_by_name ''gabi++_static'' w = Inr ''gabi++'' \<and>
   stl_suffix_by_name ''stlport_shared'' w = Inr ''stlport'' \<and>
   stl_suffix_by_name ''stlport_static'' w = Inr ''stlport'' \<and>
   stl_suffix_by_name ''gnustl_shared'' w = Inr ''gnu-libstdc++'' \<and>
   stl_suffix_by_name ''gnustl_static'' w = Inr ''gnu-libstdc++'' \<and>
   stl_suffix_by_name ''c++_static'' w = Inr ''llvm-libc++'' \<and>
   stl_suffix_by_name ''c++_shared'' w = Inr ''llvm-libc++'' \<and>
   length stl_names = 10 \<and> distinct stl_names \<and>
   (x \<notin> set stl_names \<longrightarrow>
      stl_suffix_by_name x w = Inl (SysExit ''Unexpected --stl: {}'' [AStr x], w))"
  by (simp add: stl_suffix_by_name_def stl_names_def sys_exit_def)

theorem stl_suffix_by_name_table_witness:
  "''libc++'' \<notin> set stl_names \<and>
   stl_suffix_by_name ''libc++'' \<lparr>fs = [], stdout = [], requests = [], responses = []\<rparr> =
     Inl (SysExit ''Unexpected --stl: {}'' [AStr ''libc++''],
          \<lparr>fs = [], stdout = [], requests = [], responses = []\<rparr>)"
  using stl_suffix_by_name_table
    [of "\<lparr>fs = [], stdout = [], requests = [], responses = []\<rparr>" "''libc++''"]
  by (simp add: stl_names_def)

end
